theory Spec2Isabelle
  imports Complex_Main "HOL-Library.Char_ord" "HOL-Library.List_Lexorder"
begin

section \<open>The metrics cache (pkg/metrics/metrics.go)\<close>

subsection \<open>Data model\<close>

text \<open>
  The struct \<^verbatim>\<open>cacheItem\<close>: what \<^verbatim>\<open>RemoveImage\<close> needs to rebuild the label
  set of the series it has to delete. The field \<^verbatim>\<open>image\<close> is primed, the name being
  taken by the image of a set.
\<close>

record cacheItem =
  image' :: string
  currentVersion :: string
  latestVersion :: string
  os :: string
  arch :: string

text \<open>The struct \<^verbatim>\<open>Entry\<close>: one label set and the verdict.\<close>

record Entry =
  Namespace :: string
  Pod :: string
  Container :: string
  ImageURL :: string
  IsLatest :: bool
  CurrentVersion :: string
  LatestVersion :: string
  OS :: string
  Arch :: string

text \<open>
  \<^verbatim>\<open>prometheus.Labels\<close> as \<^verbatim>\<open>buildLabels\<close> fills it: the eight label names the
  gauge vector is declared with in \<^verbatim>\<open>New\<close>, one field per name.
\<close>

record Labels =
  lbl_namespace :: string
  lbl_pod :: string
  lbl_container :: string
  lbl_image :: string
  lbl_current_version :: string
  lbl_latest_version :: string
  lbl_architecture :: string
  lbl_os :: string

text \<open>
  \<^verbatim>\<open>utf8.ValidString\<close>, which the gauge vector checks every label value with. After
  a first byte from \<^verbatim>\<open>0xC2\<close> on come one, two or three continuation bytes; the
  range of the second byte is narrower after \<^verbatim>\<open>0xE0\<close>, \<^verbatim>\<open>0xED\<close>, \<^verbatim>\<open>0xF0\<close> and
  \<^verbatim>\<open>0xF4\<close> (no overlong forms, no surrogates, nothing above \<^verbatim>\<open>U+10FFFF\<close>).
\<close>

definition continuation :: "char \<Rightarrow> bool" where
  "continuation c = (CHR 0x80 \<le> c \<and> c \<le> CHR 0xBF)"

definition second :: "char \<Rightarrow> char \<Rightarrow> bool" where
  "second c c1 =
     ((if c = CHR 0xE0 then CHR 0xA0 else if c = CHR 0xF0 then CHR 0x90 else CHR 0x80) \<le> c1
      \<and> c1 \<le> (if c = CHR 0xED then CHR 0x9F else if c = CHR 0xF4 then CHR 0x8F else CHR 0xBF))"

fun ValidString :: "string \<Rightarrow> bool" where
  "ValidString [] = True"
| "ValidString (c # cs) =
     (if c < CHR 0x80 then ValidString cs
      else if CHR 0xC2 \<le> c \<and> c \<le> CHR 0xDF then
        (case cs of
           c1 # rest \<Rightarrow> second c c1 \<and> ValidString rest
         | _ \<Rightarrow> False)
      else if CHR 0xE0 \<le> c \<and> c \<le> CHR 0xEF then
        (case cs of
           c1 # c2 # rest \<Rightarrow> second c c1 \<and> continuation c2 \<and> ValidString rest
         | _ \<Rightarrow> False)
      else if CHR 0xF0 \<le> c \<and> c \<le> CHR 0xF4 then
        (case cs of
           c1 # c2 # c3 # rest \<Rightarrow>
             second c c1 \<and> continuation c2 \<and> continuation c3 \<and> ValidString rest
         | _ \<Rightarrow> False)
      else False)"

definition ValidLabels :: "Labels \<Rightarrow> bool" where
  "ValidLabels l =
     (ValidString (lbl_namespace l) \<and> ValidString (lbl_pod l) \<and> ValidString (lbl_container l)
      \<and> ValidString (lbl_image l) \<and> ValidString (lbl_current_version l)
      \<and> ValidString (lbl_latest_version l) \<and> ValidString (lbl_architecture l)
      \<and> ValidString (lbl_os l))"

text \<open>
  The gauge vector holds one gauge per label set. \<^verbatim>\<open>With(labels)\<close> returns the gauge
  of the label set, creating the series if it is not there, and \<^verbatim>\<open>Set(v)\<close> sets its
  value; on a label value that is not valid UTF-8 \<^verbatim>\<open>With\<close> panics instead, which is
  \<^verbatim>\<open>None\<close> here. \<^verbatim>\<open>Delete(labels)\<close> removes the series with exactly these labels,
  if any, and nothing when a label value is not valid UTF-8 (its boolean result is
  dropped by the caller).
\<close>

type_synonym GaugeVec = "Labels \<rightharpoonup> real"

definition With_Set :: "GaugeVec \<Rightarrow> Labels \<Rightarrow> real \<Rightarrow> GaugeVec option" where
  "With_Set g l v = (if ValidLabels l then Some (g(l \<mapsto> v)) else None)"

definition Delete :: "GaugeVec \<Rightarrow> Labels \<Rightarrow> GaugeVec" where
  "Delete g l = (if ValidLabels l then g(l := None) else g)"

text \<open>
  The mutable part of the struct \<^verbatim>\<open>Metrics\<close>. The server, the registry and the logger
  play no part in \<^verbatim>\<open>AddImage\<close> and \<^verbatim>\<open>RemoveImage\<close>; the mutex is modelled in the
  section on interleavings.
\<close>

record Metrics =
  containerImageVersion :: GaugeVec
  containerCache :: "string \<rightharpoonup> cacheItem"

definition New :: Metrics where
  "New = \<lparr>containerImageVersion = Map.empty, containerCache = Map.empty\<rparr>"

text \<open>
  How a call ends: it returns, or it panics; either way it leaves a state behind.
\<close>

datatype outcome = is_Normal: Normal (state_of: Metrics) | Panic (state_of: Metrics)

subsection \<open>Operations\<close>

text \<open>\<^verbatim>\<open>strings.Join(elems, sep)\<close>.\<close>

fun Join :: "string list \<Rightarrow> string \<Rightarrow> string" where
  "Join [] sep = []"
| "Join [x] sep = x"
| "Join (x # y # ys) sep = x @ sep @ Join (y # ys) sep"

definition latestImageIndex :: "string \<Rightarrow> string \<Rightarrow> string \<Rightarrow> string" where
  "latestImageIndex namespace pod container = Join [namespace, pod, container] ''''"

definition buildLabels :: "Entry \<Rightarrow> Labels" where
  "buildLabels entry =
     \<lparr>lbl_namespace = Namespace entry,
      lbl_pod = Pod entry,
      lbl_container = Container entry,
      lbl_image = ImageURL entry,
      lbl_current_version = CurrentVersion entry,
      lbl_latest_version = LatestVersion entry,
      lbl_architecture = Arch entry,
      lbl_os = OS entry\<rparr>"

text \<open>
  \<^verbatim>\<open>RemoveImage\<close>, the body it runs under the mutex. The entry it builds leaves
  \<^verbatim>\<open>IsLatest\<close> at its zero value. Nothing in it panics.
\<close>

definition RemoveImage :: "Metrics \<Rightarrow> string \<Rightarrow> string \<Rightarrow> string \<Rightarrow> Metrics" where
  "RemoveImage m namespace pod container =
     (let index = latestImageIndex namespace pod container in
      case containerCache m index of
        None \<Rightarrow> m
      | Some item \<Rightarrow>
          m\<lparr>containerImageVersion :=
               Delete (containerImageVersion m)
                 (buildLabels
                    \<lparr>Namespace = namespace,
                     Pod = pod,
                     Container = container,
                     ImageURL = image' item,
                     IsLatest = False,
                     CurrentVersion = currentVersion item,
                     LatestVersion = latestVersion item,
                     OS = os item,
                     Arch = arch item\<rparr>),
             containerCache := (containerCache m)(index := None)\<rparr>)"

text \<open>
  The second half of \<^verbatim>\<open>AddImage\<close>, from \<^verbatim>\<open>m.mu.Lock()\<close> to the end: set the gauge
  under the entry's labels and store the cache item. When \<^verbatim>\<open>With\<close> panics, neither
  has happened.
\<close>

definition AddImage_locked :: "Metrics \<Rightarrow> Entry \<Rightarrow> outcome" where
  "AddImage_locked m entry =
     (let isLatestF = (if IsLatest entry then 1 else 0) in
      case With_Set (containerImageVersion m) (buildLabels entry) isLatestF of
        None \<Rightarrow> Panic m
      | Some g \<Rightarrow>
          (let index = latestImageIndex (Namespace entry) (Pod entry) (Container entry)
           in Normal (m\<lparr>containerImageVersion := g,
                containerCache := (containerCache m)(index \<mapsto>
                  \<lparr>image' = ImageURL entry,
                   currentVersion = CurrentVersion entry,
                   latestVersion = LatestVersion entry,
                   os = OS entry,
                   arch = Arch entry\<rparr>)\<rparr>)))"

text \<open>
  \<^verbatim>\<open>AddImage\<close> run by one caller alone: the call of \<^verbatim>\<open>RemoveImage\<close>, then the rest.
  A panic comes after \<^verbatim>\<open>RemoveImage\<close> has done its work.
\<close>

definition AddImage :: "Metrics \<Rightarrow> Entry \<Rightarrow> outcome" where
  "AddImage m entry =
     AddImage_locked (RemoveImage m (Namespace entry) (Pod entry) (Container entry)) entry"

text \<open>A Monitored Identity and the identity a label set belongs to.\<close>

type_synonym identity = "string \<times> string \<times> string"

definition identity_of :: "Labels \<Rightarrow> identity" where
  "identity_of l = (lbl_namespace l, lbl_pod l, lbl_container l)"

definition entry_identity :: "Entry \<Rightarrow> identity" where
  "entry_identity e = (Namespace e, Pod e, Container e)"

text \<open>The exported series of an identity: the label sets of the gauge vector that carry it.\<close>

definition series_of :: "Metrics \<Rightarrow> identity \<Rightarrow> Labels set" where
  "series_of m i = {l \<in> dom (containerImageVersion m). identity_of l = i}"

subsection \<open>Sequences of calls\<close>

text \<open>
  A caller's sequence of \<^verbatim>\<open>AddImage\<close> and \<^verbatim>\<open>RemoveImage\<close> calls, each finished
  before the next starts. A panic ends the sequence.
\<close>

datatype op = Add Entry | Remove string string string

fun apply_op :: "Metrics \<Rightarrow> op \<Rightarrow> outcome" where
  "apply_op m (Add entry) = AddImage m entry"
| "apply_op m (Remove namespace pod container) = Normal (RemoveImage m namespace pod container)"

fun run :: "Metrics \<Rightarrow> op list \<Rightarrow> outcome" where
  "run m [] = Normal m"
| "run m (x # xs) = (case apply_op m x of Normal m' \<Rightarrow> run m' xs | Panic m' \<Rightarrow> Panic m')"

text \<open>An entry for the examples: the identity and the image vary, the rest is fixed.\<close>

definition mkEntry :: "string \<Rightarrow> string \<Rightarrow> string \<Rightarrow> string \<Rightarrow> Entry" where
  "mkEntry n p c i =
     \<lparr>Namespace = n, Pod = p, Container = c, ImageURL = i, IsLatest = True,
      CurrentVersion = ''1.0'', LatestVersion = ''1.0'', OS = ''linux'', Arch = ''amd64''\<rparr>"

subsection \<open>Series and cache entries\<close>

text \<open>
  The cache key of an identity, the identity a call is about, the identities a sequence
  of calls adds, and the cache item that records a label set. Every series of a state
  the code reaches has valid labels. A state is \<open>tracked\<close> over a set of identities when
  every exported series has valid labels, belongs to one of the identities and is
  recorded as such in the cache: the cache entry under the key of its identity is its
  item.
\<close>

definition key_of :: "identity \<Rightarrow> string" where
  "key_of i = (case i of (namespace, pod, container) \<Rightarrow> latestImageIndex namespace pod container)"

fun op_identity :: "op \<Rightarrow> identity" where
  "op_identity (Add entry) = entry_identity entry"
| "op_identity (Remove namespace pod container) = (namespace, pod, container)"

fun added :: "op list \<Rightarrow> identity set" where
  "added [] = {}"
| "added (Add entry # ops) = insert (entry_identity entry) (added ops)"
| "added (Remove namespace pod container # ops) = added ops"

definition item_of :: "Labels \<Rightarrow> cacheItem" where
  "item_of l =
     \<lparr>image' = lbl_image l, currentVersion = lbl_current_version l,
      latestVersion = lbl_latest_version l, os = lbl_os l, arch = lbl_architecture l\<rparr>"

definition valid_series :: "Metrics \<Rightarrow> bool" where
  "valid_series m = (\<forall>l. containerImageVersion m l \<noteq> None \<longrightarrow> ValidLabels l)"

definition tracked :: "identity set \<Rightarrow> Metrics \<Rightarrow> bool" where
  "tracked I m =
     (\<forall>l. containerImageVersion m l \<noteq> None \<longrightarrow>
        ValidLabels l \<and> identity_of l \<in> I
        \<and> containerCache m (key_of (identity_of l)) = Some (item_of l))"

subsection \<open>Concurrent callers and the mutex\<close>

text \<open>
  Where a goroutine stands in its call. \<^verbatim>\<open>AddImage\<close> first calls \<^verbatim>\<open>RemoveImage\<close>,
  which locks \<^verbatim>\<open>m.mu\<close>, runs its body and unlocks on return (the deferred
  \<^verbatim>\<open>Unlock\<close>); only then does \<^verbatim>\<open>AddImage\<close> lock \<^verbatim>\<open>m.mu\<close> itself, for the rest
  of its body. The deferred \<^verbatim>\<open>Unlock\<close> runs on a panic as well. A goroutine
  that has panicked stops; the others go on, as they do when its caller recovers.
\<close>

datatype pc =
    Add_call Entry
  | Add_in_RemoveImage Entry
  | Add_at_Lock Entry
  | Add_locked Entry
  | Remove_call string string string
  | Remove_locked string string string
  | Returned
  | Panicked

text \<open>
  The shared \<^verbatim>\<open>Metrics\<close>, the goroutine that holds \<^verbatim>\<open>m.mu\<close>, if any, and the
  goroutines by number.
\<close>

record System =
  metrics :: Metrics
  mu :: "nat option"
  goroutines :: "pc list"

text \<open>
  One step of goroutine \<open>i\<close>: \<^verbatim>\<open>Lock\<close> when the mutex is free, or the code between
  \<^verbatim>\<open>Lock\<close> and the deferred \<^verbatim>\<open>Unlock\<close> together with that \<^verbatim>\<open>Unlock\<close> (nobody
  else touches the cache or the gauge vector while the mutex is held). \<^verbatim>\<open>None\<close> when
  the goroutine cannot move: it waits for the mutex, has returned or panicked, or does
  not exist.
\<close>

definition lock :: "System \<Rightarrow> nat \<Rightarrow> pc \<Rightarrow> System option" where
  "lock s i pc' =
     (if mu s = None
      then Some (s\<lparr>mu := Some i, goroutines := (goroutines s)[i := pc']\<rparr>)
      else None)"

definition unlock :: "System \<Rightarrow> nat \<Rightarrow> Metrics \<Rightarrow> pc \<Rightarrow> System option" where
  "unlock s i m pc' =
     Some (s\<lparr>metrics := m, mu := None, goroutines := (goroutines s)[i := pc']\<rparr>)"

definition step :: "System \<Rightarrow> nat \<Rightarrow> System option" where
  "step s i =
     (if length (goroutines s) \<le> i then None
      else case goroutines s ! i of
        Add_call entry \<Rightarrow> lock s i (Add_in_RemoveImage entry)
      | Add_in_RemoveImage entry \<Rightarrow>
          unlock s i (RemoveImage (metrics s) (Namespace entry) (Pod entry) (Container entry))
            (Add_at_Lock entry)
      | Add_at_Lock entry \<Rightarrow> lock s i (Add_locked entry)
      | Add_locked entry \<Rightarrow>
          (case AddImage_locked (metrics s) entry of
             Normal m \<Rightarrow> unlock s i m Returned
           | Panic m \<Rightarrow> unlock s i m Panicked)
      | Remove_call namespace pod container \<Rightarrow> lock s i (Remove_locked namespace pod container)
      | Remove_locked namespace pod container \<Rightarrow>
          unlock s i (RemoveImage (metrics s) namespace pod container) Returned
      | Returned \<Rightarrow> None
      | Panicked \<Rightarrow> None)"

text \<open>A schedule: the goroutines in the order they take their steps.\<close>

fun exec :: "System \<Rightarrow> nat list \<Rightarrow> System option" where
  "exec s [] = Some s"
| "exec s (i # sched) = (case step s i of None \<Rightarrow> None | Some s' \<Rightarrow> exec s' sched)"

definition start :: "Metrics \<Rightarrow> pc list \<Rightarrow> System" where
  "start m calls = \<lparr>metrics = m, mu = None, goroutines = calls\<rparr>"


section \<open>The digest resolver (pkg/client/docker/manifest/manifest.go)\<close>

subsection \<open>Go values\<close>

text \<open>A Go \<^verbatim>\<open>error\<close>, by its message.\<close>

datatype error = Error string

fun msg :: "error \<Rightarrow> string" where
  "msg (Error s) = s"

record Options =
  Username :: string
  Password :: string

record AuthResponse =
  Token :: string

text \<open>
  \<^verbatim>\<open>http.Header\<close>: a map from canonical header names to the values of the header, in
  the order they were added.
\<close>

type_synonym Header = "string \<rightharpoonup> string list"

record Request =
  Method :: string
  URL :: string
  ReqHeader :: Header

text \<open>
  What the resolver reads of an \<^verbatim>\<open>http.Response\<close>. \<^verbatim>\<open>Body\<close> is what
  \<^verbatim>\<open>ioutil.ReadAll(resp.Body)\<close> returns.
\<close>

record Response =
  Status :: string
  StatusCode :: int
  ResHeader :: Header
  Body :: "error + string"

subsection \<open>The standard library, as far as the resolver uses it\<close>

definition dquote :: char where "dquote = CHR 0x22"
definition backslash :: char where "backslash = CHR 0x5C"

definition isLower :: "char \<Rightarrow> bool" where
  "isLower c = (CHR ''a'' \<le> c \<and> c \<le> CHR ''z'')"

definition isUpper :: "char \<Rightarrow> bool" where
  "isUpper c = (CHR ''A'' \<le> c \<and> c \<le> CHR ''Z'')"

definition isDigit :: "char \<Rightarrow> bool" where
  "isDigit c = (CHR ''0'' \<le> c \<and> c \<le> CHR ''9'')"

text \<open>
  \<^verbatim>\<open>textproto.CanonicalMIMEHeaderKey\<close>: a key of token bytes gets its first letter and
  each letter after a hyphen in upper case and the other letters in lower case; any other
  key is left as it is.
\<close>

definition validHeaderFieldByte :: "char \<Rightarrow> bool" where
  "validHeaderFieldByte c =
     (isLower c \<or> isUpper c \<or> isDigit c \<or>
      c \<in> set [CHR ''!'', CHR ''#'', CHR ''$'', CHR ''%'', CHR ''&'', CHR 0x27, CHR ''*'',
                 CHR ''+'', CHR ''-'', CHR ''.'', CHR ''^'', CHR ''_'', CHR 0x60, CHR ''|'',
                 CHR ''~''])"

fun canonicalMIMEHeaderKey :: "bool \<Rightarrow> string \<Rightarrow> string" where
  "canonicalMIMEHeaderKey upper [] = []"
| "canonicalMIMEHeaderKey upper (c # cs) =
     (let c' = (if upper \<and> isLower c then char_of (of_char c - (32::nat))
                else if \<not> upper \<and> isUpper c then char_of (of_char c + (32::nat))
                else c)
      in c' # canonicalMIMEHeaderKey (c' = CHR ''-'') cs)"

definition CanonicalMIMEHeaderKey :: "string \<Rightarrow> string" where
  "CanonicalMIMEHeaderKey s =
     (if list_all validHeaderFieldByte s then canonicalMIMEHeaderKey True s else s)"

text \<open>\<^verbatim>\<open>Header.Add\<close>, \<^verbatim>\<open>Header.Set\<close> and \<^verbatim>\<open>Header.Get\<close>.\<close>

definition Header_Add :: "Header \<Rightarrow> string \<Rightarrow> string \<Rightarrow> Header" where
  "Header_Add h key v =
     (let k = CanonicalMIMEHeaderKey key in
      h(k \<mapsto> (case h k of None \<Rightarrow> [] | Some vs \<Rightarrow> vs) @ [v]))"

definition Header_Set :: "Header \<Rightarrow> string \<Rightarrow> string \<Rightarrow> Header" where
  "Header_Set h key v = h(CanonicalMIMEHeaderKey key \<mapsto> [v])"

definition Header_Get :: "Header \<Rightarrow> string \<Rightarrow> string" where
  "Header_Get h key =
     (case h (CanonicalMIMEHeaderKey key) of
        None \<Rightarrow> []
      | Some [] \<Rightarrow> []
      | Some (v # vs) \<Rightarrow> v)"

text \<open>\<^verbatim>\<open>base64.StdEncoding.EncodeToString\<close>, padding included.\<close>

definition encodeStd :: string where
  "encodeStd = ''ABCDEFGHIJKLMNOPQRSTUVWXYZabcdefghijklmnopqrstuvwxyz0123456789+/''"

fun EncodeToString :: "string \<Rightarrow> string" where
  "EncodeToString [] = []"
| "EncodeToString [a] =
     [encodeStd ! (of_char a div 4), encodeStd ! ((of_char a mod 4) * 16), CHR ''='', CHR ''='']"
| "EncodeToString [a, b] =
     [encodeStd ! (of_char a div 4),
      encodeStd ! ((of_char a mod 4) * 16 + of_char b div 16),
      encodeStd ! ((of_char b mod 16) * 4), CHR ''='']"
| "EncodeToString (a # b # c # rest) =
     [encodeStd ! (of_char a div 4),
      encodeStd ! ((of_char a mod 4) * 16 + of_char b div 16),
      encodeStd ! ((of_char b mod 16) * 4 + of_char c div 64),
      encodeStd ! (of_char c mod 64)] @ EncodeToString rest"

text \<open>
  \<^verbatim>\<open>url.QueryEscape\<close>: letters, digits and \<^verbatim>\<open>-_.~\<close> stay, a space becomes
  \<^verbatim>\<open>+\<close>, every other byte becomes \<^verbatim>\<open>%XX\<close> in upper-case hexadecimal.
\<close>

definition upperhex :: string where
  "upperhex = ''0123456789ABCDEF''"

definition shouldEscape :: "char \<Rightarrow> bool" where
  "shouldEscape c =
     (\<not> (isLower c \<or> isUpper c \<or> isDigit c \<or>
         c \<in> set [CHR ''-'', CHR ''_'', CHR ''.'', CHR ''~'']))"

definition escape_byte :: "char \<Rightarrow> string" where
  "escape_byte c =
     (if c = CHR '' '' then ''+''
      else if shouldEscape c
        then [CHR ''%'', upperhex ! (of_char c div 16), upperhex ! (of_char c mod 16)]
      else [c])"

definition QueryEscape :: "string \<Rightarrow> string" where
  "QueryEscape s = concat (map escape_byte s)"

text \<open>
  \<^verbatim>\<open>url.QueryUnescape\<close>, the decoding on the side of the endpoint: \<^verbatim>\<open>None\<close> for
  Go's \<^verbatim>\<open>EscapeError\<close>.
\<close>

definition ishex :: "char \<Rightarrow> bool" where
  "ishex c = (isDigit c \<or> (CHR ''a'' \<le> c \<and> c \<le> CHR ''f'') \<or> (CHR ''A'' \<le> c \<and> c \<le> CHR ''F''))"

definition unhex :: "char \<Rightarrow> nat" where
  "unhex c =
     (if isDigit c then of_char c - of_char (CHR ''0'')
      else if CHR ''a'' \<le> c \<and> c \<le> CHR ''f'' then of_char c - of_char (CHR ''a'') + 10
      else if CHR ''A'' \<le> c \<and> c \<le> CHR ''F'' then of_char c - of_char (CHR ''A'') + 10
      else 0)"

fun QueryUnescape :: "string \<Rightarrow> string option" where
  "QueryUnescape [] = Some []"
| "QueryUnescape (c # cs) =
     (if c = CHR ''%'' then
        (case cs of
           h # l # rest \<Rightarrow>
             (if ishex h \<and> ishex l
              then map_option ((#) (char_of (unhex h * 16 + unhex l))) (QueryUnescape rest)
              else None)
         | _ \<Rightarrow> None)
      else if c = CHR ''+'' then map_option ((#) CHR '' '') (QueryUnescape cs)
      else map_option ((#) c) (QueryUnescape cs))"

text \<open>
  \<^verbatim>\<open>url.Values\<close> with \<^verbatim>\<open>Set\<close> and \<^verbatim>\<open>Encode\<close>: the keys in sorted order, each value
  as \<^verbatim>\<open>key=value\<close>, both escaped, joined by \<^verbatim>\<open>&\<close>.
\<close>

type_synonym Values = "(string \<times> string list) list"

definition Values_Set :: "Values \<Rightarrow> string \<Rightarrow> string \<Rightarrow> Values" where
  "Values_Set q key v = (key, [v]) # filter (\<lambda>kv. fst kv \<noteq> key) q"

fun join_amp :: "string list \<Rightarrow> string" where
  "join_amp [] = []"
| "join_amp [x] = x"
| "join_amp (x # y # ys) = x @ ''&'' @ join_amp (y # ys)"

definition Encode :: "Values \<Rightarrow> string" where
  "Encode q =
     join_amp (concat (map (\<lambda>(k, vs). map (\<lambda>v. QueryEscape k @ ''='' @ QueryEscape v) vs)
                  (sort_key fst q)))"

text \<open>
  \<^verbatim>\<open>strconv.Quote\<close>, which \<^verbatim>\<open>%q\<close> formats a string with: the string in double
  quotes, a double quote and a backslash each behind a backslash, a printable ASCII
  character as it is, the control characters as \<^verbatim>\<open>\a \b \f \n \r \t \v\<close> or
  \<^verbatim>\<open>\xNN\<close> in lower-case hexadecimal.
\<close>

definition lowerhex :: string where
  "lowerhex = ''0123456789abcdef''"

definition IsPrint_ASCII :: "char \<Rightarrow> bool" where
  "IsPrint_ASCII c = (CHR 0x20 \<le> c \<and> c \<le> CHR 0x7E)"

definition appendEscapedRune_ASCII :: "char \<Rightarrow> string" where
  "appendEscapedRune_ASCII c =
     (if c = dquote \<or> c = backslash then [backslash, c]
      else if IsPrint_ASCII c then [c]
      else if c = CHR 0x07 then [backslash, CHR ''a'']
      else if c = CHR 0x08 then [backslash, CHR ''b'']
      else if c = CHR 0x0C then [backslash, CHR ''f'']
      else if c = CHR 0x0A then [backslash, CHR ''n'']
      else if c = CHR 0x0D then [backslash, CHR ''r'']
      else if c = CHR 0x09 then [backslash, CHR ''t'']
      else if c = CHR 0x0B then [backslash, CHR ''v'']
      else [backslash, CHR ''x'', lowerhex ! (of_char c div 16), lowerhex ! (of_char c mod 16)])"

text \<open>
  Bytes from \<^verbatim>\<open>0x80\<close> on are decoded as UTF-8 and escaped by the Unicode tables of the
  library, which are not modelled: \<open>high\<close> stands for what \<^verbatim>\<open>Quote\<close> makes of a
  maximal run of such bytes. Decoding never reads past an ASCII byte, so the runs are
  quoted one by one; \<open>pending\<close> collects the run being read.
\<close>

definition flush :: "(string \<Rightarrow> string) \<Rightarrow> string \<Rightarrow> string" where
  "flush high pending = (if pending = [] then [] else high pending)"

fun quoteWith :: "(string \<Rightarrow> string) \<Rightarrow> string \<Rightarrow> string \<Rightarrow> string" where
  "quoteWith high pending [] = flush high pending"
| "quoteWith high pending (c # cs) =
     (if CHR 0x80 \<le> c then quoteWith high (pending @ [c]) cs
      else flush high pending @ appendEscapedRune_ASCII c @ quoteWith high [] cs)"

definition Quote :: "(string \<Rightarrow> string) \<Rightarrow> string \<Rightarrow> string" where
  "Quote high s = [dquote] @ quoteWith high [] s @ [dquote]"

text \<open>\<^verbatim>\<open>strings.Contains(s, substr)\<close>.\<close>

fun HasPrefix :: "string \<Rightarrow> string \<Rightarrow> bool" where
  "HasPrefix s [] = True"
| "HasPrefix [] (p # ps) = False"
| "HasPrefix (c # cs) (p # ps) = (c = p \<and> HasPrefix cs ps)"

fun Contains :: "string \<Rightarrow> string \<Rightarrow> bool" where
  "Contains [] substr = (substr = [])"
| "Contains (c # cs) substr = (HasPrefix (c # cs) substr \<or> Contains cs substr)"

subsection \<open>The environment of a call\<close>

text \<open>
  What a call of \<^verbatim>\<open>Digest\<close> gets from outside the package: whether \<^verbatim>\<open>url.Parse\<close>
  (inside \<^verbatim>\<open>http.NewRequest\<close>) accepts a URL, what the HTTP client answers to a
  request (an error for a transport failure, a timeout or a cancelled context), what
  \<^verbatim>\<open>json.Unmarshal\<close> decodes a body to, and the Unicode part of \<^verbatim>\<open>%q\<close>.
\<close>

record Env =
  url_Parse :: "string \<Rightarrow> error option"
  Client_Do :: "Request \<Rightarrow> error + Response"
  json_Unmarshal :: "string \<Rightarrow> error + AuthResponse"
  Quote_high :: "string \<Rightarrow> string"

text \<open>\<^verbatim>\<open>http.NewRequest(method, url, nil)\<close> with one of the methods GET and HEAD.\<close>

definition NewRequest :: "Env \<Rightarrow> string \<Rightarrow> string \<Rightarrow> error + Request" where
  "NewRequest env method url =
     (case url_Parse env url of
        Some err \<Rightarrow> Inl err
      | None \<Rightarrow> Inr \<lparr>Method = method, URL = url, ReqHeader = Map.empty\<rparr>)"

subsection \<open>The resolver\<close>

definition tokenURL :: string where
  "tokenURL = ''https://auth.docker.io/token''"

text \<open>\<^verbatim>\<open>fmt.Sprintf(manifestURL, repo, image, tag)\<close>.\<close>

definition manifestURL :: "string \<Rightarrow> string \<Rightarrow> string \<Rightarrow> string" where
  "manifestURL repo img tag =
     ''https://registry.hub.docker.com/v2/'' @ repo @ ''/'' @ img @ ''/manifests/'' @ tag"

text \<open>
  The \<^verbatim>\<open>url.URL\<close> that \<^verbatim>\<open>url.Parse\<close> returns and \<^verbatim>\<open>String\<close>, for a URL with a
  scheme, a host, a path that needs no escaping, and a query.
\<close>

record URL_struct =
  Scheme :: string
  Host :: string
  Path :: string
  RawQuery :: string

definition URL_String :: "URL_struct \<Rightarrow> string" where
  "URL_String u =
     Scheme u @ ''://'' @ Host u @ Path u @ (if RawQuery u = [] then [] else ''?'' @ RawQuery u)"

text \<open>\<^verbatim>\<open>url.Parse(tokenURL)\<close>: the constant is well formed, the call gives no error.\<close>

definition Parse_tokenURL :: "error + URL_struct" where
  "Parse_tokenURL =
     Inr \<lparr>Scheme = ''https'', Host = ''auth.docker.io'', Path = ''/token'', RawQuery = []\<rparr>"

text \<open>The scope \<^verbatim>\<open>authUrl\<close> formats: \<^verbatim>\<open>fmt.Sprintf("repository:%s/%s:pull", repo, image)\<close>.\<close>

definition scope :: "string \<Rightarrow> string \<Rightarrow> string" where
  "scope repo img = ''repository:'' @ repo @ ''/'' @ img @ '':pull''"

text \<open>The query \<^verbatim>\<open>authUrl\<close> sets: \<^verbatim>\<open>u.Query()\<close> is empty, the URL having no query.\<close>

definition authQuery :: "string \<Rightarrow> string \<Rightarrow> Values" where
  "authQuery repo img =
     Values_Set (Values_Set [] ''service'' ''registry.docker.io'') ''scope'' (scope repo img)"

definition authUrl :: "string \<Rightarrow> string \<Rightarrow> error + string" where
  "authUrl repo img =
     (case Parse_tokenURL of
        Inl err \<Rightarrow> Inl err
      | Inr u \<Rightarrow> Inr (URL_String (u\<lparr>RawQuery := Encode (authQuery repo img)\<rparr>)))"

text \<open>
  \<^verbatim>\<open>getAuthToken\<close> up to the request it hands to the client, and the whole of it.
\<close>

definition getAuthToken_request :: "Env \<Rightarrow> Options \<Rightarrow> string \<Rightarrow> string \<Rightarrow> error + Request" where
  "getAuthToken_request env options repo img =
     (case authUrl repo img of
        Inl err \<Rightarrow> Inl err
      | Inr url \<Rightarrow>
          (case NewRequest env ''GET'' url of
             Inl err \<Rightarrow> Inl err
           | Inr req \<Rightarrow>
               (if Username options \<noteq> [] \<and> Password options \<noteq> []
                then Inr (req\<lparr>ReqHeader :=
                       Header_Set (ReqHeader req) ''Authorization''
                         (''Basic '' @ EncodeToString (Username options @ '':'' @ Password options))\<rparr>)
                else Inr req)))"

definition getAuthToken :: "Env \<Rightarrow> Options \<Rightarrow> string \<Rightarrow> string \<Rightarrow> error + string" where
  "getAuthToken env options repo img =
     (case getAuthToken_request env options repo img of
        Inl err \<Rightarrow> Inl err
      | Inr req \<Rightarrow>
          (case Client_Do env req of
             Inl err \<Rightarrow> Inl err
           | Inr resp \<Rightarrow>
               (case Body resp of
                  Inl err \<Rightarrow> Inl err
                | Inr body \<Rightarrow>
                    (if StatusCode resp \<noteq> 200 then Inl (Error body)
                     else (case json_Unmarshal env body of
                             Inl err \<Rightarrow> Inl err
                           | Inr response \<Rightarrow> Inr (Token response))))))"

text \<open>
  The error \<^verbatim>\<open>Digest\<close> builds for a response that is not a 200:
  \<^verbatim>\<open>fmt.Errorf("registry responded to head request to %s with %q, auth: %q", url,
  res.Status, wwwAuthHeader)\<close>.
\<close>

definition manifestError :: "Env \<Rightarrow> string \<Rightarrow> Response \<Rightarrow> error" where
  "manifestError env url res =
     (let wwwAuthHeader = Header_Get (ResHeader res) ''www-authenticate'';
          wwwAuthHeader = (if wwwAuthHeader = [] then ''not present'' else wwwAuthHeader)
      in Error (''registry responded to head request to '' @ url @ '' with ''
                @ Quote (Quote_high env) (Status res) @ '', auth: ''
                @ Quote (Quote_high env) wwwAuthHeader))"

text \<open>
  \<^verbatim>\<open>Digest\<close> from the URL to the request it hands to the client, and the whole of it.
  \<^verbatim>\<open>Inl err\<close> is the pair of the empty string and \<^verbatim>\<open>err\<close>, \<^verbatim>\<open>Inr d\<close> the pair of
  \<^verbatim>\<open>d\<close> and \<^verbatim>\<open>nil\<close>.
\<close>

definition Digest_request :: "Env \<Rightarrow> string \<Rightarrow> string \<Rightarrow> string \<Rightarrow> string \<Rightarrow> error + Request" where
  "Digest_request env token repo img tag =
     (case NewRequest env ''HEAD'' (manifestURL repo img tag) of
        Inl err \<Rightarrow> Inl err
      | Inr req \<Rightarrow>
          Inr (req\<lparr>ReqHeader :=
            Header_Add
              (Header_Add
                 (Header_Add
                    (Header_Add (ReqHeader req) ''Authorization'' (''Bearer '' @ token))
                    ''Accept'' ''application/vnd.docker.distribution.manifest.v2+json'')
                 ''Accept'' ''application/vnd.docker.distribution.manifest.list.v2+json'')
              ''Accept'' ''application/vnd.docker.distribution.manifest.v1+json''\<rparr>))"

definition Digest :: "Env \<Rightarrow> Options \<Rightarrow> string \<Rightarrow> string \<Rightarrow> string \<Rightarrow> error + string" where
  "Digest env options repo img tag =
     (case getAuthToken env options repo img of
        Inl err \<Rightarrow> Inl err
      | Inr token \<Rightarrow>
          (case Digest_request env token repo img tag of
             Inl err \<Rightarrow> Inl err
           | Inr req \<Rightarrow>
               (case Client_Do env req of
                  Inl err \<Rightarrow> Inl (Error (''failed to get docker manifest: '' @ msg err))
                | Inr res \<Rightarrow>
                    (if StatusCode res \<noteq> 200
                     then Inl (manifestError env (manifestURL repo img tag) res)
                     else Inr (Header_Get (ResHeader res) ''Docker-Content-Digest'')))))"

subsection \<open>A registry for the examples\<close>

text \<open>
  A registry that answers the token request with a token and the manifest request with
  the given response; every URL parses, every body decodes to the token \<^verbatim>\<open>tok\<close>.
\<close>

definition registry :: "Response \<Rightarrow> Env" where
  "registry manifest =
     \<lparr>url_Parse = (\<lambda>u. None),
      Client_Do = (\<lambda>req. if Method req = ''GET''
                          then Inr \<lparr>Status = ''200 OK'', StatusCode = 200,
                                    ResHeader = Map.empty, Body = Inr ''token-body''\<rparr>
                          else Inr manifest),
      json_Unmarshal = (\<lambda>body. Inr \<lparr>Token = ''tok''\<rparr>),
      Quote_high = (\<lambda>s. s)\<rparr>"

definition challenge :: string where
  "challenge = ''Bearer realm='' @ [dquote] @ ''https://auth.docker.io/token'' @ [dquote]"

definition unauthorized :: Response where
  "unauthorized =
     \<lparr>Status = ''401 Unauthorized'', StatusCode = 401,
      ResHeader = [''Www-Authenticate'' \<mapsto> [challenge]], Body = Inr []\<rparr>"

definition found :: Response where
  "found =
     \<lparr>Status = ''200 OK'', StatusCode = 200,
      ResHeader = [''Docker-Content-Digest'' \<mapsto> [''sha256:43b9'']], Body = Inr []\<rparr>"

definition found_without_digest :: Response where
  "found_without_digest =
     \<lparr>Status = ''200 OK'', StatusCode = 200, ResHeader = Map.empty, Body = Inr []\<rparr>"

definition forbidden :: Response where
  "forbidden =
     \<lparr>Status = ''403 Forbidden'', StatusCode = 403, ResHeader = Map.empty, Body = Inr []\<rparr>"

text \<open>The message of the error for the response \<open>unauthorized\<close> to a request for library/nginx:latest.\<close>

definition unauthorized_message :: string where
  "unauthorized_message =
     ''registry responded to head request to ''
     @ ''https://registry.hub.docker.com/v2/library/nginx/manifests/latest with ''
     @ [dquote] @ ''401 Unauthorized'' @ [dquote] @ '', auth: ''
     @ [dquote] @ ''Bearer realm='' @ [backslash, dquote] @ ''https://auth.docker.io/token''
     @ [backslash, dquote] @ [dquote]"

text \<open>Strings that \<^verbatim>\<open>%q\<close> only encloses in double quotes.\<close>

definition plain :: "string \<Rightarrow> bool" where
  "plain s = list_all (\<lambda>c. IsPrint_ASCII c \<and> c \<noteq> dquote \<and> c \<noteq> backslash) s"

section \<open>Properties of the metrics cache\<close>

lemmas metrics_defs =
  AddImage_def AddImage_locked_def RemoveImage_def With_Set_def Delete_def
  buildLabels_def latestImageIndex_def New_def Let_def

lemma latestImageIndex_append:
  "latestImageIndex namespace pod container = namespace @ pod @ container"
  by (simp add: latestImageIndex_def)

lemma buildLabels_identity: "identity_of (buildLabels e) = entry_identity e"
  by (simp add: identity_of_def buildLabels_def entry_identity_def)

text \<open>The entries of the examples have valid labels when the four varying strings are valid.\<close>

lemma ValidLabels_mkEntry:
  "ValidLabels (buildLabels (mkEntry n p c i)) =
     (ValidString n \<and> ValidString p \<and> ValidString c \<and> ValidString i)"
  by (simp add: ValidLabels_def buildLabels_def mkEntry_def)

text \<open>
  The entry \<^verbatim>\<open>RemoveImage\<close> rebuilds from the identity and the cache item has the
  labels of the entry the item was stored for.
\<close>

lemma rebuilt_labels:
  "buildLabels \<lparr>Namespace = Namespace e, Pod = Pod e, Container = Container e,
      ImageURL = ImageURL e, IsLatest = False, CurrentVersion = CurrentVersion e,
      LatestVersion = LatestVersion e, OS = OS e, Arch = Arch e\<rparr> = buildLabels e"
  by (simp add: buildLabels_def)

text \<open>\<^verbatim>\<open>AddImage\<close> returns exactly when the labels of the entry are valid.\<close>

lemma AddImage_valid:
  "ValidLabels (buildLabels e) \<Longrightarrow>
   AddImage m e =
     Normal ((RemoveImage m (Namespace e) (Pod e) (Container e))
       \<lparr>containerImageVersion :=
          (containerImageVersion (RemoveImage m (Namespace e) (Pod e) (Container e)))
            (buildLabels e \<mapsto> (if IsLatest e then 1 else 0)),
        containerCache :=
          (containerCache (RemoveImage m (Namespace e) (Pod e) (Container e)))
            (latestImageIndex (Namespace e) (Pod e) (Container e) \<mapsto>
               \<lparr>image' = ImageURL e, currentVersion = CurrentVersion e,
                latestVersion = LatestVersion e, os = OS e, arch = Arch e\<rparr>)\<rparr>)"
  by (simp add: AddImage_def AddImage_locked_def With_Set_def Let_def)

lemma AddImage_invalid:
  "\<not> ValidLabels (buildLabels e) \<Longrightarrow>
   AddImage m e = Panic (RemoveImage m (Namespace e) (Pod e) (Container e))"
  by (simp add: AddImage_def AddImage_locked_def With_Set_def Let_def)

lemma is_Normal_AddImage: "is_Normal (AddImage m e) = ValidLabels (buildLabels e)"
  by (cases "ValidLabels (buildLabels e)") (simp_all add: AddImage_valid AddImage_invalid)

lemma cache_RemoveImage:
  "containerCache (RemoveImage m n p c) k =
     (if k = latestImageIndex n p c then None else containerCache m k)"
  by (simp add: RemoveImage_def Let_def split: option.splits)

lemma RemoveImage_absent_key:
  "containerCache m (latestImageIndex n p c) = None \<Longrightarrow> RemoveImage m n p c = m"
  by (simp add: RemoveImage_def Let_def)

lemma RemoveImage_idempotent:
  "RemoveImage (RemoveImage m n p c) n p c = RemoveImage m n p c"
  by (rule RemoveImage_absent_key) (simp add: cache_RemoveImage)

lemma RemoveImage_New: "RemoveImage New n p c = New"
  by (rule RemoveImage_absent_key) (simp add: New_def)

lemma cache_after_Add:
  "containerCache (state_of (AddImage m e)) (latestImageIndex (Namespace e) (Pod e) (Container e)) =
     (if ValidLabels (buildLabels e)
      then Some \<lparr>image' = ImageURL e, currentVersion = CurrentVersion e,
        latestVersion = LatestVersion e, os = OS e, arch = Arch e\<rparr>
      else None)"
  by (simp add: AddImage_valid AddImage_invalid cache_RemoveImage)

lemma AddImage_New:
  "ValidLabels (buildLabels e) \<Longrightarrow>
   AddImage New e =
     Normal \<lparr>containerImageVersion = [buildLabels e \<mapsto> (if IsLatest e then 1 else 0)],
      containerCache = [latestImageIndex (Namespace e) (Pod e) (Container e) \<mapsto>
        \<lparr>image' = ImageURL e, currentVersion = CurrentVersion e,
         latestVersion = LatestVersion e, os = OS e, arch = Arch e\<rparr>]\<rparr>"
  by (simp add: AddImage_valid RemoveImage_New) (simp add: New_def)

lemma remove_after_add_New:
  "RemoveImage (state_of (AddImage New e)) (Namespace e) (Pod e) (Container e) = New"
proof (cases "ValidLabels (buildLabels e)")
  case True
  then show ?thesis
    by (simp add: AddImage_New) (simp add: RemoveImage_def Let_def rebuilt_labels Delete_def New_def)
next
  case False
  then show ?thesis by (simp add: AddImage_invalid RemoveImage_New)
qed

lemma AddImage_twice:
  assumes "Namespace a = Namespace b" "Pod a = Pod b" "Container a = Container b"
  shows "AddImage (state_of (AddImage New a)) b = AddImage New b"
proof -
  have "RemoveImage (state_of (AddImage New a)) (Namespace a) (Pod a) (Container a) = New"
    by (rule remove_after_add_New)
  then have r: "RemoveImage (state_of (AddImage New a)) (Namespace b) (Pod b) (Container b) = New"
    using assms by simp
  have n: "RemoveImage New (Namespace b) (Pod b) (Container b) = New"
    by (rule RemoveImage_New)
  show ?thesis
    unfolding AddImage_def[of "state_of (AddImage New a)" b] AddImage_def[of New b] r n ..
qed

text \<open>
  C2, amended. Two entries with valid label values and one identity that differ in the
  image, the current version or the latest version, added one after the other to a fresh
  cache: both calls return, the identity has exactly one series, the one with the second
  entry's labels and gauge value (it is the only series there is), no series has the
  first entry's labels, and the cache holds the second entry's fields, under the
  identity's key and nowhere else.
\<close>

theorem C2_second_add_replaces:
  assumes "Namespace a = Namespace b" and "Pod a = Pod b" and "Container a = Container b"
    and "ImageURL a \<noteq> ImageURL b \<or> CurrentVersion a \<noteq> CurrentVersion b
         \<or> LatestVersion a \<noteq> LatestVersion b"
    and "ValidLabels (buildLabels a)" and "ValidLabels (buildLabels b)"
  shows "is_Normal (AddImage New a)
    \<and> is_Normal (AddImage (state_of (AddImage New a)) b)
    \<and> series_of (state_of (AddImage (state_of (AddImage New a)) b)) (entry_identity b)
        = {buildLabels b}
    \<and> containerImageVersion (state_of (AddImage (state_of (AddImage New a)) b))
        = [buildLabels b \<mapsto> (if IsLatest b then 1 else 0)]
    \<and> containerImageVersion (state_of (AddImage (state_of (AddImage New a)) b)) (buildLabels a)
        = None
    \<and> containerCache (state_of (AddImage (state_of (AddImage New a)) b))
        = [latestImageIndex (Namespace b) (Pod b) (Container b) \<mapsto>
            \<lparr>image' = ImageURL b, currentVersion = CurrentVersion b,
             latestVersion = LatestVersion b, os = OS b, arch = Arch b\<rparr>]"
proof -
  have eq: "AddImage (state_of (AddImage New a)) b = AddImage New b"
    using assms(1-3) by (rule AddImage_twice)
  have ne: "buildLabels a \<noteq> buildLabels b"
    using assms(4) by (auto simp: buildLabels_def)
  have s: "series_of (state_of (AddImage New b)) (entry_identity b) = {buildLabels b}"
    using assms(6) by (auto simp: series_of_def AddImage_New buildLabels_identity)
  show ?thesis
    using ne s assms(5,6) by (simp add: eq is_Normal_AddImage) (simp add: AddImage_New)
qed

text \<open>The hypotheses of C2 at two entries of one pod that differ in the image.\<close>

theorem C2_witness:
  "ImageURL (mkEntry ''ns'' ''pod'' ''c'' ''img:1'') \<noteq> ImageURL (mkEntry ''ns'' ''pod'' ''c'' ''img:2'')
   \<and> ValidLabels (buildLabels (mkEntry ''ns'' ''pod'' ''c'' ''img:1''))
   \<and> ValidLabels (buildLabels (mkEntry ''ns'' ''pod'' ''c'' ''img:2''))
   \<and> is_Normal (AddImage (state_of (AddImage New (mkEntry ''ns'' ''pod'' ''c'' ''img:1'')))
         (mkEntry ''ns'' ''pod'' ''c'' ''img:2''))
   \<and> series_of (state_of (AddImage (state_of (AddImage New (mkEntry ''ns'' ''pod'' ''c'' ''img:1'')))
         (mkEntry ''ns'' ''pod'' ''c'' ''img:2''))) (entry_identity (mkEntry ''ns'' ''pod'' ''c'' ''img:2''))
       = {buildLabels (mkEntry ''ns'' ''pod'' ''c'' ''img:2'')}
   \<and> containerImageVersion (state_of (AddImage (state_of (AddImage New (mkEntry ''ns'' ''pod'' ''c'' ''img:1'')))
         (mkEntry ''ns'' ''pod'' ''c'' ''img:2''))) (buildLabels (mkEntry ''ns'' ''pod'' ''c'' ''img:1'')) = None"
proof -
  have h: "ImageURL (mkEntry ''ns'' ''pod'' ''c'' ''img:1'') \<noteq> ImageURL (mkEntry ''ns'' ''pod'' ''c'' ''img:2'')"
    by (simp add: mkEntry_def)
  have v: "ValidLabels (buildLabels (mkEntry ''ns'' ''pod'' ''c'' ''img:1''))"
    "ValidLabels (buildLabels (mkEntry ''ns'' ''pod'' ''c'' ''img:2''))"
    by (simp_all add: ValidLabels_mkEntry)
  have "Namespace (mkEntry ''ns'' ''pod'' ''c'' ''img:1'') = Namespace (mkEntry ''ns'' ''pod'' ''c'' ''img:2'')"
    "Pod (mkEntry ''ns'' ''pod'' ''c'' ''img:1'') = Pod (mkEntry ''ns'' ''pod'' ''c'' ''img:2'')"
    "Container (mkEntry ''ns'' ''pod'' ''c'' ''img:1'') = Container (mkEntry ''ns'' ''pod'' ''c'' ''img:2'')"
    by (simp_all add: mkEntry_def)
  from C2_second_add_replaces[OF this disjI1[OF h] v] h v show ?thesis by blast
qed

text \<open>
  C2 as stated fails at a second entry whose image is not valid UTF-8: the first call
  returns, the second removes the series and the cache item of the first entry and then
  panics in \<^verbatim>\<open>With\<close>, leaving the fresh cache, with no series for the identity.
\<close>

theorem C2_counterexample:
  "Namespace (mkEntry ''ns'' ''pod'' ''c'' ''img:1'') = Namespace (mkEntry ''ns'' ''pod'' ''c'' [CHR 0xFF])
   \<and> Pod (mkEntry ''ns'' ''pod'' ''c'' ''img:1'') = Pod (mkEntry ''ns'' ''pod'' ''c'' [CHR 0xFF])
   \<and> Container (mkEntry ''ns'' ''pod'' ''c'' ''img:1'') = Container (mkEntry ''ns'' ''pod'' ''c'' [CHR 0xFF])
   \<and> ImageURL (mkEntry ''ns'' ''pod'' ''c'' ''img:1'') \<noteq> ImageURL (mkEntry ''ns'' ''pod'' ''c'' [CHR 0xFF])
   \<and> is_Normal (AddImage New (mkEntry ''ns'' ''pod'' ''c'' ''img:1''))
   \<and> AddImage (state_of (AddImage New (mkEntry ''ns'' ''pod'' ''c'' ''img:1'')))
        (mkEntry ''ns'' ''pod'' ''c'' [CHR 0xFF]) = Panic New
   \<and> series_of (state_of (AddImage (state_of (AddImage New (mkEntry ''ns'' ''pod'' ''c'' ''img:1'')))
        (mkEntry ''ns'' ''pod'' ''c'' [CHR 0xFF]))) (''ns'', ''pod'', ''c'') = {}
   \<and> containerCache (state_of (AddImage (state_of (AddImage New (mkEntry ''ns'' ''pod'' ''c'' ''img:1'')))
        (mkEntry ''ns'' ''pod'' ''c'' [CHR 0xFF]))) = Map.empty"
proof -
  have i: "\<not> ValidLabels (buildLabels (mkEntry ''ns'' ''pod'' ''c'' [CHR 0xFF]))"
    by (simp add: ValidLabels_mkEntry)
  have v: "is_Normal (AddImage New (mkEntry ''ns'' ''pod'' ''c'' ''img:1''))"
    by (simp add: is_Normal_AddImage ValidLabels_mkEntry)
  have "AddImage (state_of (AddImage New (mkEntry ''ns'' ''pod'' ''c'' ''img:1'')))
        (mkEntry ''ns'' ''pod'' ''c'' [CHR 0xFF])
      = AddImage New (mkEntry ''ns'' ''pod'' ''c'' [CHR 0xFF])"
    by (rule AddImage_twice) (simp_all add: mkEntry_def)
  also have "\<dots> = Panic New"
    using i by (simp add: AddImage_invalid RemoveImage_New)
  finally have p: "AddImage (state_of (AddImage New (mkEntry ''ns'' ''pod'' ''c'' ''img:1'')))
        (mkEntry ''ns'' ''pod'' ''c'' [CHR 0xFF]) = Panic New" .
  have s: "series_of New (''ns'', ''pod'', ''c'') = {}" "containerCache New = Map.empty"
    by (simp_all add: series_of_def New_def)
  show ?thesis using v s by (simp add: p) (simp add: mkEntry_def)
qed

text \<open>Every series of a state the code reaches has valid labels.\<close>

lemma valid_series_New: "valid_series New"
  by (simp add: valid_series_def New_def)

lemma gauge_RemoveImage_subset:
  "containerImageVersion (RemoveImage m n p c) l \<noteq> None \<Longrightarrow> containerImageVersion m l \<noteq> None"
  by (simp add: RemoveImage_def Let_def Delete_def split: option.splits if_splits)

lemma valid_series_RemoveImage: "valid_series m \<Longrightarrow> valid_series (RemoveImage m n p c)"
  unfolding valid_series_def using gauge_RemoveImage_subset by blast

lemma valid_series_AddImage: "valid_series m \<Longrightarrow> valid_series (state_of (AddImage m e))"
proof (cases "ValidLabels (buildLabels e)")
  case True
  assume "valid_series m"
  then have "valid_series (RemoveImage m (Namespace e) (Pod e) (Container e))"
    by (rule valid_series_RemoveImage)
  with True show ?thesis
    by (simp add: AddImage_valid valid_series_def)
next
  case False
  assume "valid_series m"
  with False show ?thesis by (simp add: AddImage_invalid valid_series_RemoveImage)
qed

lemma valid_series_apply_op: "valid_series m \<Longrightarrow> valid_series (state_of (apply_op m x))"
  by (cases x) (simp_all add: valid_series_AddImage valid_series_RemoveImage)

lemma valid_series_run: "valid_series m \<Longrightarrow> valid_series (state_of (run m ops))"
proof (induction ops arbitrary: m)
  case Nil
  then show ?case by simp
next
  case (Cons x ops)
  from Cons.prems have v: "valid_series (state_of (apply_op m x))"
    by (rule valid_series_apply_op)
  show ?case
  proof (cases "apply_op m x")
    case (Normal m')
    with v Cons.IH[of m'] show ?thesis by simp
  next
    case (Panic m')
    with v show ?thesis by simp
  qed
qed

lemma reachable_valid_series: "valid_series (state_of (run New ops))"
  by (rule valid_series_run) (rule valid_series_New)

lemma no_series_after_round_trip:
  assumes "is_Normal (AddImage m e) \<or> valid_series m"
  shows "containerImageVersion
      (RemoveImage (state_of (AddImage m e)) (Namespace e) (Pod e) (Container e)) (buildLabels e)
    = None"
proof (cases "ValidLabels (buildLabels e)")
  case True
  then show ?thesis
    by (simp add: RemoveImage_def[of "state_of (AddImage m e)"] Let_def cache_after_Add
        rebuilt_labels Delete_def)
next
  case False
  with assms have "valid_series m" by (simp add: is_Normal_AddImage)
  then have "valid_series
      (RemoveImage (state_of (AddImage m e)) (Namespace e) (Pod e) (Container e))"
    by (intro valid_series_RemoveImage valid_series_AddImage)
  with False show ?thesis unfolding valid_series_def by blast
qed

text \<open>
  C3. \<^verbatim>\<open>AddImage(e)\<close> and then \<^verbatim>\<open>RemoveImage\<close> of its identity: no series has the
  labels of \<^verbatim>\<open>e\<close> and the cache has nothing under the identity's key. The cache part
  holds from any state; the series part holds from any state when \<^verbatim>\<open>AddImage\<close> has
  returned, and from any state whose series have valid labels, as those the code reaches
  have, when it has panicked. From a fresh cache the pair gives the fresh cache back.
  \<^verbatim>\<open>AddImage\<close> returns exactly when the label values of \<^verbatim>\<open>e\<close> are valid UTF-8.
\<close>

theorem C3_add_then_remove:
  "(is_Normal (AddImage m e) \<or> valid_series m \<longrightarrow>
      containerImageVersion
        (RemoveImage (state_of (AddImage m e)) (Namespace e) (Pod e) (Container e))
        (buildLabels e) = None)
   \<and> containerCache (RemoveImage (state_of (AddImage m e)) (Namespace e) (Pod e) (Container e))
        (latestImageIndex (Namespace e) (Pod e) (Container e)) = None
   \<and> RemoveImage (state_of (AddImage New e)) (Namespace e) (Pod e) (Container e) = New
   \<and> is_Normal (AddImage m e) = ValidLabels (buildLabels e)"
  by (simp add: no_series_after_round_trip cache_RemoveImage remove_after_add_New
      is_Normal_AddImage)

text \<open>
  C3 at a cache that holds another image for the pod: the call returns, and after the
  removal the pod has no series with the labels of the entry.
\<close>

theorem C3_witness:
  "is_Normal (AddImage (state_of (AddImage New (mkEntry ''ns'' ''pod'' ''c'' ''img:1'')))
      (mkEntry ''ns'' ''pod'' ''c'' ''img:2''))
   \<and> containerImageVersion
        (RemoveImage
           (state_of (AddImage (state_of (AddImage New (mkEntry ''ns'' ''pod'' ''c'' ''img:1'')))
              (mkEntry ''ns'' ''pod'' ''c'' ''img:2'')))
           (Namespace (mkEntry ''ns'' ''pod'' ''c'' ''img:2''))
           (Pod (mkEntry ''ns'' ''pod'' ''c'' ''img:2''))
           (Container (mkEntry ''ns'' ''pod'' ''c'' ''img:2'')))
        (buildLabels (mkEntry ''ns'' ''pod'' ''c'' ''img:2'')) = None"
proof -
  have n: "is_Normal (AddImage (state_of (AddImage New (mkEntry ''ns'' ''pod'' ''c'' ''img:1'')))
      (mkEntry ''ns'' ''pod'' ''c'' ''img:2''))"
    by (simp add: is_Normal_AddImage ValidLabels_mkEntry)
  with C3_add_then_remove[of "state_of (AddImage New (mkEntry ''ns'' ''pod'' ''c'' ''img:1''))"
      "mkEntry ''ns'' ''pod'' ''c'' ''img:2''"]
  show ?thesis by blast
qed

text \<open>
  C8. Two Monitored Identities that differ have the same cache key: the key is the three
  components joined with nothing between them, so a boundary can move. The cache then
  holds the entry of one under the key of the other.
\<close>

theorem C8_key_aliases:
  "(''ab'', ''c'', '''') \<noteq> (''a'', ''bc'', '''')
   \<and> latestImageIndex ''ab'' ''c'' '''' = latestImageIndex ''a'' ''bc'' ''''
   \<and> (\<exists>i j :: identity. i \<noteq> j
        \<and> (case i of (n, p, c) \<Rightarrow> latestImageIndex n p c)
          = (case j of (n, p, c) \<Rightarrow> latestImageIndex n p c))"
proof -
  have neq: "(''ab'', ''c'', '''') \<noteq> (''a'', ''bc'', '''')" by simp
  have eq: "latestImageIndex ''ab'' ''c'' '''' = latestImageIndex ''a'' ''bc'' ''''"
    by (simp add: latestImageIndex_def)
  have "(case (''ab'', ''c'', '''') of (n, p, c) \<Rightarrow> latestImageIndex n p c)
      = (case (''a'', ''bc'', '''') of (n, p, c) \<Rightarrow> latestImageIndex n p c)"
    using eq by simp
  with neq have "\<exists>i j :: identity. i \<noteq> j
        \<and> (case i of (n, p, c) \<Rightarrow> latestImageIndex n p c)
          = (case j of (n, p, c) \<Rightarrow> latestImageIndex n p c)"
    by blast
  with neq eq show ?thesis by blast
qed

text \<open>
  The cache holds entries only under the keys of identities that were added. So where
  the key of an identity is the key of no identity that was added, in particular where
  the identity itself was not added and the keys of the identities in use are pairwise
  different, \<^verbatim>\<open>RemoveImage\<close> of that identity returns the state as it is.
\<close>

lemma cache_keys_apply_op:
  assumes "\<And>k. containerCache m k \<noteq> None \<Longrightarrow> k \<in> S"
    and "containerCache (state_of (apply_op m x)) k \<noteq> None"
  shows "k \<in> S \<union> key_of ` added [x]"
proof (cases x)
  case (Add e)
  show ?thesis
  proof (cases "ValidLabels (buildLabels e)")
    case True
    with assms Add show ?thesis
      by (auto simp: AddImage_valid cache_RemoveImage key_of_def entry_identity_def
          split: if_splits)
  next
    case False
    with assms Add show ?thesis
      by (auto simp: AddImage_invalid cache_RemoveImage split: if_splits)
  qed
next
  case (Remove n p c)
  with assms show ?thesis by (auto simp: cache_RemoveImage split: if_splits)
qed

lemma added_Cons: "added (x # ops) = added [x] \<union> added ops"
  by (cases x) simp_all

lemma cache_keys_run:
  assumes "\<And>k. containerCache m k \<noteq> None \<Longrightarrow> k \<in> S"
    and "containerCache (state_of (run m ops)) k \<noteq> None"
  shows "k \<in> S \<union> key_of ` added ops"
  using assms
proof (induction ops arbitrary: m S)
  case Nil
  then show ?case by simp
next
  case (Cons x ops)
  have step: "\<And>k. containerCache (state_of (apply_op m x)) k \<noteq> None
      \<Longrightarrow> k \<in> S \<union> key_of ` added [x]"
    using Cons.prems(1) by (rule cache_keys_apply_op)
  show ?case
  proof (cases "apply_op m x")
    case (Normal m')
    with step have "\<And>k. containerCache m' k \<noteq> None \<Longrightarrow> k \<in> S \<union> key_of ` added [x]"
      by simp
    moreover from Normal Cons.prems(2) have "containerCache (state_of (run m' ops)) k \<noteq> None"
      by simp
    ultimately have "k \<in> (S \<union> key_of ` added [x]) \<union> key_of ` added ops"
      by (rule Cons.IH)
    then show ?thesis by (subst added_Cons) blast
  next
    case (Panic m')
    with step[of k] Cons.prems(2) have "k \<in> S \<union> key_of ` added [x]" by simp
    then show ?thesis by (subst added_Cons) blast
  qed
qed

lemma RemoveImage_noop_without_aliases:
  assumes "inj_on key_of (insert (n, p, c) (added ops))" and "(n, p, c) \<notin> added ops"
  shows "RemoveImage (state_of (run New ops)) n p c = state_of (run New ops)"
proof (rule RemoveImage_absent_key, rule ccontr)
  assume "containerCache (state_of (run New ops)) (latestImageIndex n p c) \<noteq> None"
  then have "latestImageIndex n p c \<in> {} \<union> key_of ` added ops"
    by (intro cache_keys_run[of New]) (simp_all add: New_def)
  then obtain i where i: "i \<in> added ops" "key_of i = key_of (n, p, c)"
    by (auto simp: key_of_def)
  from inj_onD[OF assms(1) i(2)] i(1) have "i = (n, p, c)" by simp
  with i(1) assms(2) show False by simp
qed

text \<open>
  C9, at an input the code can receive. The pod (ab, c, d) is added; nothing was ever
  added for (a, bc, d), which has the same cache key. \<^verbatim>\<open>RemoveImage\<close> of (a, bc, d)
  changes the state: it deletes the cache entry of (ab, c, d), whose series stays
  exported and survives a later \<^verbatim>\<open>RemoveImage\<close> of (ab, c, d) itself.
\<close>

theorem C9_remove_of_aliased_identity:
  "(''a'', ''bc'', ''d'') \<notin> added [Add (mkEntry ''ab'' ''c'' ''d'' ''img:1'')]
   \<and> is_Normal (run New [Add (mkEntry ''ab'' ''c'' ''d'' ''img:1'')])
   \<and> containerCache (state_of (run New [Add (mkEntry ''ab'' ''c'' ''d'' ''img:1'')])) ''abcd''
       = Some \<lparr>image' = ''img:1'', currentVersion = ''1.0'', latestVersion = ''1.0'',
               os = ''linux'', arch = ''amd64''\<rparr>
   \<and> RemoveImage (state_of (run New [Add (mkEntry ''ab'' ''c'' ''d'' ''img:1'')])) ''a'' ''bc'' ''d''
       \<noteq> state_of (run New [Add (mkEntry ''ab'' ''c'' ''d'' ''img:1'')])
   \<and> containerCache
        (RemoveImage (state_of (run New [Add (mkEntry ''ab'' ''c'' ''d'' ''img:1'')])) ''a'' ''bc'' ''d'')
       = Map.empty
   \<and> containerImageVersion
        (RemoveImage (state_of (run New [Add (mkEntry ''ab'' ''c'' ''d'' ''img:1'')])) ''a'' ''bc'' ''d'')
        (buildLabels (mkEntry ''ab'' ''c'' ''d'' ''img:1'')) = Some 1
   \<and> containerImageVersion
        (state_of (run New [Add (mkEntry ''ab'' ''c'' ''d'' ''img:1''), Remove ''a'' ''bc'' ''d'',
                            Remove ''ab'' ''c'' ''d'']))
        (buildLabels (mkEntry ''ab'' ''c'' ''d'' ''img:1'')) = Some 1"
proof -
  let ?e = "mkEntry ''ab'' ''c'' ''d'' ''img:1''"
  let ?item = "\<lparr>image' = ''img:1'', currentVersion = ''1.0'', latestVersion = ''1.0'',
                 os = ''linux'', arch = ''amd64''\<rparr>"
  let ?s = "\<lparr>containerImageVersion = [buildLabels ?e \<mapsto> 1],
            containerCache = [''abcd'' \<mapsto> ?item]\<rparr>"
  let ?t = "\<lparr>containerImageVersion = [buildLabels ?e \<mapsto> 1], containerCache = Map.empty\<rparr>"
  have v: "ValidLabels (buildLabels ?e)" by (simp add: ValidLabels_mkEntry)
  have k: "latestImageIndex (Namespace ?e) (Pod ?e) (Container ?e) = ''abcd''"
    "latestImageIndex ''a'' ''bc'' ''d'' = ''abcd''" "latestImageIndex ''ab'' ''c'' ''d'' = ''abcd''"
    by (simp_all add: latestImageIndex_def mkEntry_def)
  have add: "AddImage New ?e = Normal ?s"
    using AddImage_New[OF v] by (simp add: k) (simp add: mkEntry_def)
  have l: "buildLabels \<lparr>Namespace = ''a'', Pod = ''bc'', Container = ''d'', ImageURL = ''img:1'',
      IsLatest = False, CurrentVersion = ''1.0'', LatestVersion = ''1.0'', OS = ''linux'',
      Arch = ''amd64''\<rparr> \<noteq> buildLabels ?e"
    by (simp add: buildLabels_def mkEntry_def)
  have r: "RemoveImage ?s ''a'' ''bc'' ''d'' = ?t"
    using l by (simp add: RemoveImage_def Let_def k Delete_def)
  have r': "RemoveImage ?t ''ab'' ''c'' ''d'' = ?t"
    by (rule RemoveImage_absent_key) simp
  have a: "run New [Add ?e] = Normal ?s"
    by (simp add: add)
  have b: "run New [Add ?e, Remove ''a'' ''bc'' ''d'', Remove ''ab'' ''c'' ''d''] = Normal ?t"
    by (simp add: add r r')
  have n: "(''a'', ''bc'', ''d'') \<notin> added [Add ?e]"
    by (simp add: entry_identity_def mkEntry_def)
  have d: "?t \<noteq> ?s"
    by (simp add: fun_eq_iff)
  show ?thesis
    unfolding a b outcome.sel outcome.disc r
    using n d by simp
qed

text \<open>
  Where the keys of the identities in use are pairwise different, the cache tracks the
  gauge vector through every call, and an identity never has two series.
\<close>

lemma labels_of_item:
  "buildLabels \<lparr>Namespace = lbl_namespace l, Pod = lbl_pod l, Container = lbl_container l,
      ImageURL = image' (item_of l), IsLatest = False,
      CurrentVersion = currentVersion (item_of l), LatestVersion = latestVersion (item_of l),
      OS = os (item_of l), Arch = arch (item_of l)\<rparr> = l"
  by (simp add: buildLabels_def item_of_def)

lemma tracked_New: "tracked I New"
  by (simp add: tracked_def New_def)

lemma gauge_RemoveImage_tracked:
  assumes t: "tracked I m" and l: "containerImageVersion (RemoveImage m n p c) l \<noteq> None"
    and i: "identity_of l = (n, p, c)"
  shows False
proof -
  from l have old: "containerImageVersion m l \<noteq> None" by (rule gauge_RemoveImage_subset)
  with t have v: "ValidLabels l"
    and "containerCache m (key_of (identity_of l)) = Some (item_of l)"
    by (simp_all add: tracked_def)
  with i have c: "containerCache m (latestImageIndex n p c) = Some (item_of l)"
    by (simp add: key_of_def)
  have "lbl_namespace l = n" "lbl_pod l = p" "lbl_container l = c"
    using i by (simp_all add: identity_of_def)
  with labels_of_item[of l] c v have "containerImageVersion (RemoveImage m n p c) l = None"
    by (simp add: RemoveImage_def Let_def Delete_def)
  with l show False by simp
qed

lemma tracked_RemoveImage:
  assumes inj: "inj_on key_of I" and i: "(n, p, c) \<in> I" and t: "tracked I m"
  shows "tracked I (RemoveImage m n p c)"
  unfolding tracked_def
proof (intro allI impI)
  fix l
  assume l: "containerImageVersion (RemoveImage m n p c) l \<noteq> None"
  then have old: "containerImageVersion m l \<noteq> None" by (rule gauge_RemoveImage_subset)
  with t have v: "ValidLabels l" and li: "identity_of l \<in> I"
    and lc: "containerCache m (key_of (identity_of l)) = Some (item_of l)"
    by (simp_all add: tracked_def)
  have "identity_of l \<noteq> (n, p, c)" using gauge_RemoveImage_tracked[OF t l] by blast
  with inj li i have "key_of (identity_of l) \<noteq> key_of (n, p, c)"
    by (auto dest: inj_onD)
  then have "key_of (identity_of l) \<noteq> latestImageIndex n p c" by (simp add: key_of_def)
  with v li lc show "ValidLabels l \<and> identity_of l \<in> I \<and>
      containerCache (RemoveImage m n p c) (key_of (identity_of l)) = Some (item_of l)"
    by (simp add: cache_RemoveImage)
qed

lemma tracked_AddImage_locked:
  assumes i: "entry_identity e \<in> I" and t: "tracked I m"
    and free: "containerCache m (latestImageIndex (Namespace e) (Pod e) (Container e)) = None"
  shows "tracked I (state_of (AddImage_locked m e))"
proof (cases "ValidLabels (buildLabels e)")
  case False
  with t show ?thesis by (simp add: AddImage_locked_def With_Set_def)
next
  case valid: True
  show ?thesis
    unfolding tracked_def
  proof (intro allI impI)
    fix l
    assume l: "containerImageVersion (state_of (AddImage_locked m e)) l \<noteq> None"
    show "ValidLabels l \<and> identity_of l \<in> I \<and>
        containerCache (state_of (AddImage_locked m e)) (key_of (identity_of l)) = Some (item_of l)"
    proof (cases "l = buildLabels e")
      case True
      then show ?thesis using i valid
        by (simp add: AddImage_locked_def With_Set_def Let_def buildLabels_identity key_of_def
            entry_identity_def)
           (simp add: buildLabels_def item_of_def)
    next
      case False
      with l valid have old: "containerImageVersion m l \<noteq> None"
        by (simp add: AddImage_locked_def Let_def With_Set_def)
      with t have v: "ValidLabels l" and li: "identity_of l \<in> I"
        and lc: "containerCache m (key_of (identity_of l)) = Some (item_of l)"
        by (simp_all add: tracked_def)
      from lc free
      have "key_of (identity_of l) \<noteq> latestImageIndex (Namespace e) (Pod e) (Container e)"
        by auto
      with v li lc valid show ?thesis
        by (simp add: AddImage_locked_def With_Set_def Let_def)
    qed
  qed
qed

lemma tracked_AddImage:
  assumes inj: "inj_on key_of I" and i: "entry_identity e \<in> I" and t: "tracked I m"
  shows "tracked I (state_of (AddImage m e))"
proof -
  let ?m = "RemoveImage m (Namespace e) (Pod e) (Container e)"
  from i have "(Namespace e, Pod e, Container e) \<in> I" by (simp add: entry_identity_def)
  with inj t have r: "tracked I ?m" by (intro tracked_RemoveImage)
  have free: "containerCache ?m (latestImageIndex (Namespace e) (Pod e) (Container e)) = None"
    by (simp add: cache_RemoveImage)
  show ?thesis
    unfolding AddImage_def by (rule tracked_AddImage_locked[OF i r free])
qed

lemma tracked_apply_op:
  "inj_on key_of I \<Longrightarrow> op_identity x \<in> I \<Longrightarrow> tracked I m
   \<Longrightarrow> tracked I (state_of (apply_op m x))"
  by (cases x) (simp_all add: tracked_AddImage tracked_RemoveImage)

lemma tracked_run:
  "inj_on key_of I \<Longrightarrow> op_identity ` set ops \<subseteq> I \<Longrightarrow> tracked I m
   \<Longrightarrow> tracked I (state_of (run m ops))"
proof (induction ops arbitrary: m)
  case Nil
  then show ?case by simp
next
  case (Cons x ops)
  from Cons.prems have t: "tracked I (state_of (apply_op m x))"
    by (intro tracked_apply_op) simp_all
  show ?case
  proof (cases "apply_op m x")
    case (Normal m')
    with t Cons.prems Cons.IH[of m'] show ?thesis by simp
  next
    case (Panic m')
    with t show ?thesis by simp
  qed
qed

lemma labels_determined:
  "identity_of l1 = identity_of l2 \<Longrightarrow> item_of l1 = item_of l2 \<Longrightarrow> l1 = l2"
  by (cases l1; cases l2) (simp add: identity_of_def item_of_def)

lemma one_series_without_aliases:
  assumes "inj_on key_of (op_identity ` set ops)"
    and "containerImageVersion (state_of (run New ops)) l1 \<noteq> None"
    and "containerImageVersion (state_of (run New ops)) l2 \<noteq> None"
    and "identity_of l1 = identity_of l2"
  shows "l1 = l2"
proof -
  have "tracked (op_identity ` set ops) (state_of (run New ops))"
    using assms(1) by (intro tracked_run tracked_New) simp_all
  with assms(2,3)
  have "containerCache (state_of (run New ops)) (key_of (identity_of l1)) = Some (item_of l1)"
    "containerCache (state_of (run New ops)) (key_of (identity_of l2)) = Some (item_of l2)"
    by (simp_all add: tracked_def)
  with assms(4) have "item_of l1 = item_of l2" by simp
  with assms(4) show ?thesis by (rule labels_determined)
qed

text \<open>
  C1, at an input the code can receive. The identities (ab, c, d) and (a, bc, d) have one
  cache key. After the first is added, the second added and the first added again with
  another image, all three calls having returned, the series of the first call is still
  exported next to the one of the third: two series for the identity (ab, c, d).
\<close>

theorem C1_aliased_keys_leave_two_series:
  "is_Normal
      (run New [Add (mkEntry ''ab'' ''c'' ''d'' ''img:1''), Add (mkEntry ''a'' ''bc'' ''d'' ''img:2''),
                Add (mkEntry ''ab'' ''c'' ''d'' ''img:3'')])
   \<and> containerImageVersion
      (state_of
        (run New [Add (mkEntry ''ab'' ''c'' ''d'' ''img:1''), Add (mkEntry ''a'' ''bc'' ''d'' ''img:2''),
                  Add (mkEntry ''ab'' ''c'' ''d'' ''img:3'')]))
      (buildLabels (mkEntry ''ab'' ''c'' ''d'' ''img:1'')) = Some 1
   \<and> containerImageVersion
      (state_of
        (run New [Add (mkEntry ''ab'' ''c'' ''d'' ''img:1''), Add (mkEntry ''a'' ''bc'' ''d'' ''img:2''),
                  Add (mkEntry ''ab'' ''c'' ''d'' ''img:3'')]))
      (buildLabels (mkEntry ''ab'' ''c'' ''d'' ''img:3'')) = Some 1
   \<and> buildLabels (mkEntry ''ab'' ''c'' ''d'' ''img:1'') \<noteq> buildLabels (mkEntry ''ab'' ''c'' ''d'' ''img:3'')
   \<and> identity_of (buildLabels (mkEntry ''ab'' ''c'' ''d'' ''img:1'')) = (''ab'', ''c'', ''d'')
   \<and> identity_of (buildLabels (mkEntry ''ab'' ''c'' ''d'' ''img:3'')) = (''ab'', ''c'', ''d'')"
  by (simp add: metrics_defs ValidLabels_def mkEntry_def identity_of_def)


section \<open>Properties of concurrent callers\<close>

lemmas sys_defs = step_def lock_def unlock_def start_def

text \<open>A caller alone, one step after the other, does what \<open>AddImage\<close> and \<open>RemoveImage\<close> say.\<close>

lemma exec_AddImage_alone:
  "exec (start m [Add_call e]) [0, 0, 0, 0] =
     Some \<lparr>metrics = state_of (AddImage m e), mu = None,
           goroutines = [if is_Normal (AddImage m e) then Returned else Panicked]\<rparr>"
  by (cases "AddImage_locked (RemoveImage m (Namespace e) (Pod e) (Container e)) e")
     (simp_all add: sys_defs AddImage_def)

lemma exec_RemoveImage_alone:
  "exec (start m [Remove_call n p c]) [0, 0] =
     Some \<lparr>metrics = RemoveImage m n p c, mu = None, goroutines = [Returned]\<rparr>"
  by (simp add: sys_defs)

text \<open>
  In every call of \<^verbatim>\<open>AddImage\<close>, whatever the state and the entry, the mutex is free
  again once \<^verbatim>\<open>RemoveImage\<close> has returned, before the gauge is set.
\<close>

lemma AddImage_releases_mutex:
  "exec (start m [Add_call e]) [0, 0] =
     Some \<lparr>metrics = RemoveImage m (Namespace e) (Pod e) (Container e), mu = None,
           goroutines = [Add_at_Lock e]\<rparr>"
  by (simp add: sys_defs)

text \<open>A goroutine cannot lock while another holds the mutex.\<close>

lemma blocked:
  "exec (start m [Add_call a, Remove_call n p c]) [0, 1] = None"
  by (simp add: sys_defs)

text \<open>
  C4, at a schedule of two callers. The cache holds img:1 for the pod; two goroutines
  call \<^verbatim>\<open>AddImage\<close> for the same pod with img:2 and img:3. After the first has run
  its \<^verbatim>\<open>RemoveImage\<close> the mutex is free while the call is half done, and the pod has
  no series and no cache entry. The second goroutine then runs its whole call, the first
  finishes: both have returned, and the pod has two series, img:3 and img:2.
\<close>

theorem C4_lock_released_between_remove_and_set:
  "is_Normal (AddImage New (mkEntry ''ns'' ''pod'' ''c'' ''img:1''))
   \<and> exec (start (state_of (AddImage New (mkEntry ''ns'' ''pod'' ''c'' ''img:1'')))
          [Add_call (mkEntry ''ns'' ''pod'' ''c'' ''img:2''),
           Add_call (mkEntry ''ns'' ''pod'' ''c'' ''img:3'')]) [0, 0]
     = Some \<lparr>metrics = New, mu = None,
             goroutines = [Add_at_Lock (mkEntry ''ns'' ''pod'' ''c'' ''img:2''),
                           Add_call (mkEntry ''ns'' ''pod'' ''c'' ''img:3'')]\<rparr>
   \<and> exec (start (state_of (AddImage New (mkEntry ''ns'' ''pod'' ''c'' ''img:1'')))
          [Add_call (mkEntry ''ns'' ''pod'' ''c'' ''img:2''),
           Add_call (mkEntry ''ns'' ''pod'' ''c'' ''img:3'')]) [0, 0, 1, 1, 1, 1, 0, 0]
     = Some \<lparr>metrics =
               \<lparr>containerImageVersion =
                  [buildLabels (mkEntry ''ns'' ''pod'' ''c'' ''img:3'') \<mapsto> 1,
                   buildLabels (mkEntry ''ns'' ''pod'' ''c'' ''img:2'') \<mapsto> 1],
                containerCache =
                  [latestImageIndex ''ns'' ''pod'' ''c'' \<mapsto>
                     \<lparr>image' = ''img:2'', currentVersion = ''1.0'', latestVersion = ''1.0'',
                      os = ''linux'', arch = ''amd64''\<rparr>]\<rparr>,
             mu = None, goroutines = [Returned, Returned]\<rparr>
   \<and> buildLabels (mkEntry ''ns'' ''pod'' ''c'' ''img:3'') \<noteq> buildLabels (mkEntry ''ns'' ''pod'' ''c'' ''img:2'')
   \<and> identity_of (buildLabels (mkEntry ''ns'' ''pod'' ''c'' ''img:3''))
       = identity_of (buildLabels (mkEntry ''ns'' ''pod'' ''c'' ''img:2''))"
  by (simp add: sys_defs metrics_defs ValidLabels_def mkEntry_def identity_of_def)


section \<open>Properties of the digest resolver\<close>

lemma canon_Authorization: "CanonicalMIMEHeaderKey ''Authorization'' = ''Authorization''"
  by code_simp

lemma canon_Accept: "CanonicalMIMEHeaderKey ''Accept'' = ''Accept''"
  by code_simp

lemma canon_www_authenticate: "CanonicalMIMEHeaderKey ''www-authenticate'' = ''Www-Authenticate''"
  by code_simp

lemma canon_Docker_Content_Digest:
  "CanonicalMIMEHeaderKey ''Docker-Content-Digest'' = ''Docker-Content-Digest''"
  by code_simp

lemma HasPrefix_append: "HasPrefix (p @ s) p"
  by (induction p) auto

lemma HasPrefix_Contains: "HasPrefix s p \<Longrightarrow> Contains s p"
  by (cases s; cases p) auto

lemma Contains_append: "Contains (a @ p @ b) p"
proof (induction a)
  case Nil
  show ?case using HasPrefix_Contains[OF HasPrefix_append] by simp
next
  case (Cons c a)
  then show ?case by simp
qed

lemma IsPrint_ASCII_low: "IsPrint_ASCII c \<Longrightarrow> \<not> CHR 0x80 \<le> c"
  by (auto simp: IsPrint_ASCII_def less_eq_char_def)

lemma quoteWith_plain: "plain s \<Longrightarrow> quoteWith high [] s = s"
  by (induction s) (auto simp: plain_def flush_def appendEscapedRune_ASCII_def IsPrint_ASCII_low)

lemma Quote_plain: "plain s \<Longrightarrow> Quote high s = [dquote] @ s @ [dquote]"
  by (simp add: Quote_def quoteWith_plain)

lemma upt_16: "[0..<16] = [0, 1, 2, 3, 4, 5, 6, 7, 8, 9, 10, 11, 12, 13, 14, 15::nat]"
  by (simp add: upt_rec)

lemma hex_table:
  "list_all (\<lambda>n. ishex (upperhex ! n) \<and> unhex (upperhex ! n) = n) [0, 1, 2, 3, 4, 5, 6, 7, 8, 9, 10, 11, 12, 13, 14, 15::nat]"
  by code_simp

lemma hex_digit:
  assumes "n < 16"
  shows "ishex (upperhex ! n) \<and> unhex (upperhex ! n) = n"
proof -
  from assms have "n \<in> set [0..<16]" by simp
  then have "n \<in> set [0, 1, 2, 3, 4, 5, 6, 7, 8, 9, 10, 11, 12, 13, 14, 15::nat]"
    by (simp only: upt_16)
  with hex_table show ?thesis
    unfolding list_all_iff by blast
qed

lemma byte_split: "char_of ((of_char c :: nat) div 16 * 16 + of_char c mod 16) = c"
  by simp

lemma of_char_lt: "(of_char c :: nat) div 16 < 16"
proof -
  have "(of_char c :: nat) < 256" by simp
  then show ?thesis by linarith
qed

lemma QueryUnescape_byte:
  "QueryUnescape (escape_byte c @ rest) = map_option ((#) c) (QueryUnescape rest)"
proof (cases "c = CHR '' ''")
  case True
  then show ?thesis by (simp add: escape_byte_def)
next
  case sp: False
  show ?thesis
  proof (cases "shouldEscape c")
    case True
    have h: "ishex (upperhex ! (of_char c div 16))" "unhex (upperhex ! (of_char c div 16)) = of_char c div 16"
      using hex_digit[OF of_char_lt[of c]] by simp_all
    have l: "ishex (upperhex ! (of_char c mod 16))" "unhex (upperhex ! (of_char c mod 16)) = of_char c mod 16"
      using hex_digit[of "of_char c mod 16"] by simp_all
    show ?thesis using sp True by (simp add: escape_byte_def h l)
  next
    case False
    then have "c \<noteq> CHR ''%''" "c \<noteq> CHR ''+''"
      by (auto simp: shouldEscape_def isLower_def isUpper_def isDigit_def)
    with sp False show ?thesis by (simp add: escape_byte_def)
  qed
qed

lemma QueryUnescape_QueryEscape: "QueryUnescape (QueryEscape s) = Some s"
proof (induction s)
  case Nil
  show ?case by (simp add: QueryEscape_def)
next
  case (Cons c s)
  have "QueryEscape (c # s) = escape_byte c @ QueryEscape s" by (simp add: QueryEscape_def)
  then show ?case using Cons by (simp only: QueryUnescape_byte) simp
qed

lemma QueryEscape_consts:
  "QueryEscape ''scope'' = ''scope''"
  "QueryEscape ''service'' = ''service''"
  "QueryEscape ''registry.docker.io'' = ''registry.docker.io''"
  by code_simp+

lemma authQuery_sorted:
  "sort_key fst (authQuery repo img) =
     [(''scope'', [scope repo img]), (''service'', [''registry.docker.io''])]"
  by (simp add: authQuery_def Values_Set_def)

lemma Encode_authQuery:
  "Encode (authQuery repo img) =
     ''scope='' @ QueryEscape (scope repo img) @ ''&service=registry.docker.io''"
  by (simp add: Encode_def authQuery_sorted QueryEscape_consts)

text \<open>
  C6. The scope \<^verbatim>\<open>authUrl\<close> puts in the query under the key \<^verbatim>\<open>scope\<close> is
  \<^verbatim>\<open>repository:{repo}/{image}:pull\<close> with the two arguments as they are, whatever bytes
  they hold. The URL carries it query-escaped, after \<^verbatim>\<open>scope=\<close>, and unescaping what
  the URL carries gives the scope back, byte for byte.
\<close>

theorem C6_auth_scope:
  "authUrl repo img =
     Inr (''https://auth.docker.io/token?scope=''
          @ QueryEscape (''repository:'' @ repo @ ''/'' @ img @ '':pull'')
          @ ''&service=registry.docker.io'')
   \<and> map_of (authQuery repo img) ''scope'' = Some [''repository:'' @ repo @ ''/'' @ img @ '':pull'']
   \<and> QueryUnescape (QueryEscape (''repository:'' @ repo @ ''/'' @ img @ '':pull''))
       = Some (''repository:'' @ repo @ ''/'' @ img @ '':pull'')"
proof -
  have "authUrl repo img =
     Inr (''https://auth.docker.io/token?scope='' @ QueryEscape (scope repo img)
          @ ''&service=registry.docker.io'')"
    by (simp add: authUrl_def Parse_tokenURL_def URL_String_def Encode_authQuery)
  moreover have "map_of (authQuery repo img) ''scope'' = Some [scope repo img]"
    by (simp add: authQuery_def Values_Set_def)
  ultimately show ?thesis
    by (simp only: scope_def QueryUnescape_QueryEscape)
qed

text \<open>The parsed constant prints back as \<open>tokenURL\<close>.\<close>

lemma Parse_tokenURL_String: "Parse_tokenURL = Inr u \<Longrightarrow> URL_String u = tokenURL"
  by (auto simp: Parse_tokenURL_def URL_String_def tokenURL_def)

lemma authUrl_Inr:
  "authUrl repo img =
     Inr (''https://auth.docker.io/token?scope='' @ QueryEscape (scope repo img)
          @ ''&service=registry.docker.io'')"
  by (simp add: authUrl_def Parse_tokenURL_def URL_String_def Encode_authQuery)

lemma registry_token: "getAuthToken (registry m) options repo img = Inr ''tok''"
  by (simp add: getAuthToken_def getAuthToken_request_def authUrl_Inr NewRequest_def registry_def)

lemma registry_request:
  "Digest_request (registry m) token repo img tag =
     Inr \<lparr>Method = ''HEAD'', URL = manifestURL repo img tag,
          ReqHeader = [''Authorization'' \<mapsto> [''Bearer '' @ token],
            ''Accept'' \<mapsto> [''application/vnd.docker.distribution.manifest.v2+json'',
                          ''application/vnd.docker.distribution.manifest.list.v2+json'',
                          ''application/vnd.docker.distribution.manifest.v1+json'']]\<rparr>"
  by (simp add: Digest_request_def NewRequest_def registry_def Header_Add_def
      canon_Authorization canon_Accept)

lemma registry_Do_HEAD: "Method req = ''HEAD'' \<Longrightarrow> Client_Do (registry m) req = Inr m"
  by (simp add: registry_def)

text \<open>
  C7. When the token was obtained, the request was built and the client answered it with
  status code 200, \<^verbatim>\<open>Digest\<close> returns the first value of the response header
  \<^verbatim>\<open>Docker-Content-Digest\<close> and no error; when the response has no such header it
  returns the empty string and no error.
\<close>

theorem C7_digest_of_200:
  assumes "getAuthToken env options repo img = Inr token"
    and "Digest_request env token repo img tag = Inr req"
    and "Client_Do env req = Inr res"
    and "StatusCode res = 200"
  shows "Digest env options repo img tag = Inr (Header_Get (ResHeader res) ''Docker-Content-Digest'')
    \<and> (ResHeader res ''Docker-Content-Digest'' = None
         \<longrightarrow> Digest env options repo img tag = Inr [])"
  using assms by (simp add: Digest_def Header_Get_def canon_Docker_Content_Digest)

text \<open>
  The hypotheses of C7 at a registry that answers 200 with a digest, and at one that
  answers 200 without the header.
\<close>

theorem C7_witness:
  "Digest (registry found) \<lparr>Username = [], Password = []\<rparr> ''library'' ''nginx'' ''latest''
     = Inr ''sha256:43b9''
   \<and> ResHeader found_without_digest ''Docker-Content-Digest'' = None
   \<and> Digest (registry found_without_digest) \<lparr>Username = [], Password = []\<rparr>
        ''library'' ''nginx'' ''latest'' = Inr []"
proof -
  let ?o = "\<lparr>Username = [], Password = []\<rparr>"
  have t: "getAuthToken (registry m) ?o ''library'' ''nginx'' = Inr ''tok''" for m
    by (rule registry_token)
  note r = registry_request[of _ "''tok''" "''library''" "''nginx''" "''latest''"]
  have d: "Client_Do (registry m)
      \<lparr>Method = ''HEAD'', URL = manifestURL ''library'' ''nginx'' ''latest'',
          ReqHeader = [''Authorization'' \<mapsto> [''Bearer '' @ ''tok''],
            ''Accept'' \<mapsto> [''application/vnd.docker.distribution.manifest.v2+json'',
                          ''application/vnd.docker.distribution.manifest.list.v2+json'',
                          ''application/vnd.docker.distribution.manifest.v1+json'']]\<rparr> = Inr m" for m
    by (rule registry_Do_HEAD) simp
  have s: "StatusCode found = 200" "StatusCode found_without_digest = 200"
    by (simp_all add: found_def found_without_digest_def)
  have n: "ResHeader found_without_digest ''Docker-Content-Digest'' = None"
    by (simp add: found_without_digest_def)
  have h: "Header_Get (ResHeader found) ''Docker-Content-Digest'' = ''sha256:43b9''"
    by (simp add: Header_Get_def canon_Docker_Content_Digest found_def)
  from C7_digest_of_200[OF t r d s(1)] h
  have a: "Digest (registry found) ?o ''library'' ''nginx'' ''latest'' = Inr ''sha256:43b9''"
    by simp
  from C7_digest_of_200[OF t r d s(2)] n
  have b: "Digest (registry found_without_digest) ?o ''library'' ''nginx'' ''latest'' = Inr []"
    by blast
  from a n b show ?thesis by blast
qed

lemma Digest_non200:
  assumes "getAuthToken env options repo img = Inr token"
    and "Digest_request env token repo img tag = Inr req"
    and "Client_Do env req = Inr res"
    and "StatusCode res \<noteq> 200"
  shows "Digest env options repo img tag = Inl (manifestError env (manifestURL repo img tag) res)"
  using assms by (simp add: Digest_def)

lemma manifestError_msg:
  "msg (manifestError env url res) =
     ''registry responded to head request to '' @ url @ '' with ''
     @ Quote (Quote_high env) (Status res) @ '', auth: ''
     @ Quote (Quote_high env)
         (if Header_Get (ResHeader res) ''www-authenticate'' = [] then ''not present''
          else Header_Get (ResHeader res) ''www-authenticate'')"
  by (simp add: manifestError_def Let_def)

lemma Contains_Quote_plain: "plain s \<Longrightarrow> Contains (a @ Quote high s @ b) s"
proof -
  assume "plain s"
  then have "a @ Quote high s @ b = (a @ [dquote]) @ s @ ([dquote] @ b)"
    by (simp add: Quote_plain)
  then show ?thesis using Contains_append[of "a @ [dquote]" s "[dquote] @ b"] by simp
qed

lemma plain_not_present: "plain ''not present''"
  by (simp add: plain_def IsPrint_ASCII_def dquote_def backslash_def)

lemma Contains_mid:
  "plain s \<Longrightarrow> m = a @ Quote high s @ b \<Longrightarrow> Contains m s"
  by (simp only: Contains_Quote_plain)

lemma manifestError_status:
  assumes "plain (Status res)"
  shows "Contains (msg (manifestError env url res)) (Status res)"
proof (rule Contains_mid[OF assms])
  show "msg (manifestError env url res) =
      (''registry responded to head request to '' @ url @ '' with '')
      @ Quote (Quote_high env) (Status res)
      @ ('', auth: '' @ Quote (Quote_high env)
         (if Header_Get (ResHeader res) ''www-authenticate'' = [] then ''not present''
          else Header_Get (ResHeader res) ''www-authenticate''))"
    by (simp add: manifestError_msg)
qed

lemma manifestError_auth:
  assumes w: "w = (if Header_Get (ResHeader res) ''www-authenticate'' = [] then ''not present''
          else Header_Get (ResHeader res) ''www-authenticate'')" and p: "plain w"
  shows "Contains (msg (manifestError env url res)) w"
proof (rule Contains_mid[OF p])
  show "msg (manifestError env url res) =
      (''registry responded to head request to '' @ url @ '' with ''
       @ Quote (Quote_high env) (Status res) @ '', auth: '')
      @ Quote (Quote_high env) w @ []"
    using w by (simp add: manifestError_msg)
qed

lemma Header_Get_absent:
  "ResHeader res ''Www-Authenticate'' = None \<Longrightarrow> Header_Get (ResHeader res) ''www-authenticate'' = []"
  by (simp add: Header_Get_def canon_www_authenticate)

text \<open>
  C5, amended. When the token was obtained, the request was built and the client answered
  it with a status code other than 200, \<^verbatim>\<open>Digest\<close> returns an error and no digest.
  The message is the fixed text with the URL, the status and the
  \<^verbatim>\<open>www-authenticate\<close> value, or \<^verbatim>\<open>not present\<close> for an absent or empty one, the
  last two formatted by \<^verbatim>\<open>%q\<close>: in double quotes, with double quotes, backslashes
  and non-printable characters escaped. So the message contains \<^verbatim>\<open>not present\<close> when
  the header is absent, and it contains the status and the header value as they are when
  these are printable ASCII without double quote and backslash.
\<close>

theorem C5_non200_error:
  assumes "getAuthToken env options repo img = Inr token"
    and "Digest_request env token repo img tag = Inr req"
    and "Client_Do env req = Inr res"
    and "StatusCode res \<noteq> 200"
  shows "Digest env options repo img tag = Inl (manifestError env (manifestURL repo img tag) res)
    \<and> msg (manifestError env (manifestURL repo img tag) res) =
        ''registry responded to head request to '' @ manifestURL repo img tag @ '' with ''
        @ Quote (Quote_high env) (Status res) @ '', auth: ''
        @ Quote (Quote_high env)
            (if Header_Get (ResHeader res) ''www-authenticate'' = [] then ''not present''
             else Header_Get (ResHeader res) ''www-authenticate'')
    \<and> (ResHeader res ''Www-Authenticate'' = None
         \<longrightarrow> Contains (msg (manifestError env (manifestURL repo img tag) res)) ''not present'')
    \<and> (plain (Status res)
         \<longrightarrow> Contains (msg (manifestError env (manifestURL repo img tag) res)) (Status res))
    \<and> (Header_Get (ResHeader res) ''www-authenticate'' \<noteq> []
          \<and> plain (Header_Get (ResHeader res) ''www-authenticate'')
         \<longrightarrow> Contains (msg (manifestError env (manifestURL repo img tag) res))
               (Header_Get (ResHeader res) ''www-authenticate''))"
proof (intro conjI impI)
  show "Digest env options repo img tag = Inl (manifestError env (manifestURL repo img tag) res)"
    using assms by (rule Digest_non200)
  show "msg (manifestError env (manifestURL repo img tag) res) =
        ''registry responded to head request to '' @ manifestURL repo img tag @ '' with ''
        @ Quote (Quote_high env) (Status res) @ '', auth: ''
        @ Quote (Quote_high env)
            (if Header_Get (ResHeader res) ''www-authenticate'' = [] then ''not present''
             else Header_Get (ResHeader res) ''www-authenticate'')"
    by (rule manifestError_msg)
  show "Contains (msg (manifestError env (manifestURL repo img tag) res)) ''not present''"
    if "ResHeader res ''Www-Authenticate'' = None"
    using manifestError_auth[of "''not present''" res env] Header_Get_absent[OF that] plain_not_present
    by simp
  show "Contains (msg (manifestError env (manifestURL repo img tag) res)) (Status res)"
    if "plain (Status res)"
    using that by (rule manifestError_status)
  show "Contains (msg (manifestError env (manifestURL repo img tag) res))
               (Header_Get (ResHeader res) ''www-authenticate'')"
    if "Header_Get (ResHeader res) ''www-authenticate'' \<noteq> []
          \<and> plain (Header_Get (ResHeader res) ''www-authenticate'')"
    using manifestError_auth[of "Header_Get (ResHeader res) ''www-authenticate''" res env] that
    by simp
qed

lemma registry_Do_manifest:
  "Client_Do (registry m)
      \<lparr>Method = ''HEAD'', URL = manifestURL repo img tag,
          ReqHeader = [''Authorization'' \<mapsto> [''Bearer '' @ token],
            ''Accept'' \<mapsto> [''application/vnd.docker.distribution.manifest.v2+json'',
                          ''application/vnd.docker.distribution.manifest.list.v2+json'',
                          ''application/vnd.docker.distribution.manifest.v1+json'']]\<rparr> = Inr m"
  by (rule registry_Do_HEAD) simp

lemma Quote_challenge:
  "Quote (\<lambda>s. s) challenge =
     [dquote] @ ''Bearer realm='' @ [backslash, dquote] @ ''https://auth.docker.io/token''
     @ [backslash, dquote] @ [dquote]"
  by code_simp

lemma Quote_401: "Quote (\<lambda>s. s) ''401 Unauthorized'' = [dquote] @ ''401 Unauthorized'' @ [dquote]"
  by code_simp

lemma Digest_unauthorized:
  "Digest (registry unauthorized) \<lparr>Username = [], Password = []\<rparr> ''library'' ''nginx'' ''latest''
     = Inl (Error unauthorized_message)"
proof -
  have s: "StatusCode unauthorized \<noteq> 200" by (simp add: unauthorized_def)
  have g: "Header_Get (ResHeader unauthorized) ''www-authenticate'' = challenge"
    by (simp add: Header_Get_def canon_www_authenticate unauthorized_def)
  have c: "challenge \<noteq> []" by (simp add: challenge_def)
  have q: "Quote_high (registry unauthorized) = (\<lambda>s. s)" by (simp add: registry_def)
  have st: "Status unauthorized = ''401 Unauthorized''" by (simp add: unauthorized_def)
  have "manifestError (registry unauthorized) (manifestURL ''library'' ''nginx'' ''latest'') unauthorized
      = Error (''registry responded to head request to ''
               @ manifestURL ''library'' ''nginx'' ''latest'' @ '' with ''
               @ Quote (\<lambda>s. s) ''401 Unauthorized'' @ '', auth: '' @ Quote (\<lambda>s. s) challenge)"
    using c by (simp add: manifestError_def Let_def g q st)
  also have "\<dots> = Error unauthorized_message"
    by (simp add: Quote_challenge Quote_401 manifestURL_def unauthorized_message_def)
  finally show ?thesis
    using Digest_non200[OF registry_token registry_request registry_Do_manifest s] by simp
qed

text \<open>
  C5 as stated fails where the header holds a double quote, as a challenge does: the
  registry answers 401 with \<^verbatim>\<open>Bearer realm="https://auth.docker.io/token"\<close>, the
  message has the quotes behind backslashes and does not contain the header value.
\<close>

theorem C5_counterexample:
  "Digest (registry unauthorized) \<lparr>Username = [], Password = []\<rparr> ''library'' ''nginx'' ''latest''
     = Inl (Error unauthorized_message)
   \<and> StatusCode unauthorized = 401
   \<and> Header_Get (ResHeader unauthorized) ''www-authenticate'' = challenge
   \<and> \<not> Contains unauthorized_message challenge"
proof -
  have "\<not> Contains unauthorized_message challenge" by code_simp
  moreover have "Header_Get (ResHeader unauthorized) ''www-authenticate'' = challenge"
    by (simp add: Header_Get_def canon_www_authenticate unauthorized_def)
  moreover have "StatusCode unauthorized = 401" by (simp add: unauthorized_def)
  ultimately show ?thesis using Digest_unauthorized by simp
qed

text \<open>
  The hypotheses of C5 at a registry that answers 403 without the header.
\<close>

theorem C5_witness:
  "StatusCode forbidden \<noteq> 200
   \<and> ResHeader forbidden ''Www-Authenticate'' = None
   \<and> plain (Status forbidden)
   \<and> Digest (registry forbidden) \<lparr>Username = [], Password = []\<rparr> ''library'' ''nginx'' ''latest''
       = Inl (manifestError (registry forbidden) (manifestURL ''library'' ''nginx'' ''latest'') forbidden)
   \<and> Contains (msg (manifestError (registry forbidden)
         (manifestURL ''library'' ''nginx'' ''latest'') forbidden)) ''not present''
   \<and> Contains (msg (manifestError (registry forbidden)
         (manifestURL ''library'' ''nginx'' ''latest'') forbidden)) (Status forbidden)"
proof -
  have s: "StatusCode forbidden \<noteq> 200" by (simp add: forbidden_def)
  have n: "ResHeader forbidden ''Www-Authenticate'' = None" by (simp add: forbidden_def)
  have p: "plain (Status forbidden)"
    by (simp add: forbidden_def plain_def IsPrint_ASCII_def dquote_def backslash_def)
  from C5_non200_error[OF registry_token registry_request registry_Do_manifest s,
      of "\<lparr>Username = [], Password = []\<rparr>" "''library''" "''nginx''" "''latest''"] s n p
  show ?thesis by blast
qed

lemma getAuthToken_request_header:
  assumes "getAuthToken_request env options repo img = Inr req"
  shows "ReqHeader req =
     (if Username options \<noteq> [] \<and> Password options \<noteq> []
      then [''Authorization'' \<mapsto>
              [''Basic '' @ EncodeToString (Username options @ '':'' @ Password options)]]
      else Map.empty)"
  using assms
  by (auto simp: getAuthToken_request_def authUrl_Inr NewRequest_def Header_Set_def
      canon_Authorization split: option.splits if_splits)

lemma Digest_request_header:
  assumes "Digest_request env token repo img tag = Inr req"
  shows "ReqHeader req =
     [''Authorization'' \<mapsto> [''Bearer '' @ token],
      ''Accept'' \<mapsto> [''application/vnd.docker.distribution.manifest.v2+json'',
                    ''application/vnd.docker.distribution.manifest.list.v2+json'',
                    ''application/vnd.docker.distribution.manifest.v1+json'']]"
  using assms
  by (auto simp: Digest_request_def NewRequest_def Header_Add_def canon_Authorization canon_Accept
      split: option.splits)

text \<open>
  C10. The request \<^verbatim>\<open>getAuthToken\<close> hands to the client has the one header
  \<^verbatim>\<open>Authorization: Basic base64(username:password)\<close> when the user name and the
  password are both non-empty, and no header at all when either is empty. The request
  \<^verbatim>\<open>Digest\<close> hands to the client is built without the options, and its
  \<^verbatim>\<open>Authorization\<close> header has the single value \<^verbatim>\<open>Bearer\<close> and the token.
\<close>

theorem C10_credentials:
  "(getAuthToken_request env options repo img = Inr req \<longrightarrow>
      ReqHeader req =
        (if Username options \<noteq> [] \<and> Password options \<noteq> []
         then [''Authorization'' \<mapsto>
                 [''Basic '' @ EncodeToString (Username options @ '':'' @ Password options)]]
         else Map.empty))
   \<and> (Digest_request env token repo img tag = Inr req' \<longrightarrow>
        ReqHeader req' ''Authorization'' = Some [''Bearer '' @ token])"
  by (auto simp: getAuthToken_request_header Digest_request_header)

lemma registry_token_request:
  "getAuthToken_request (registry m) options repo img =
     Inr \<lparr>Method = ''GET'',
          URL = ''https://auth.docker.io/token?scope='' @ QueryEscape (scope repo img)
                @ ''&service=registry.docker.io'',
          ReqHeader =
            (if Username options \<noteq> [] \<and> Password options \<noteq> []
             then [''Authorization'' \<mapsto>
                     [''Basic '' @ EncodeToString (Username options @ '':'' @ Password options)]]
             else Map.empty)\<rparr>"
  by (simp add: getAuthToken_request_def authUrl_Inr NewRequest_def registry_def Header_Set_def
      canon_Authorization)

text \<open>
  C10 at a user name without a password, at a user name with a password, and at the
  manifest request.
\<close>

theorem C10_witness:
  "(\<exists>req. getAuthToken_request (registry found) \<lparr>Username = ''user'', Password = []\<rparr>
            ''library'' ''nginx'' = Inr req \<and> ReqHeader req = Map.empty)
   \<and> (\<exists>req. getAuthToken_request (registry found) \<lparr>Username = ''user'', Password = ''pass''\<rparr>
            ''library'' ''nginx'' = Inr req
          \<and> ReqHeader req = [''Authorization'' \<mapsto> [''Basic dXNlcjpwYXNz'']])
   \<and> (\<exists>req. Digest_request (registry found) ''tok'' ''library'' ''nginx'' ''latest'' = Inr req
          \<and> ReqHeader req ''Authorization'' = Some [''Bearer tok''])"
proof -
  let ?u = "\<lparr>Username = ''user'', Password = []\<rparr>"
  let ?up = "\<lparr>Username = ''user'', Password = ''pass''\<rparr>"
  obtain r1 where r1: "getAuthToken_request (registry found) ?u ''library'' ''nginx'' = Inr r1"
    by (simp add: registry_token_request)
  obtain r2 where r2: "getAuthToken_request (registry found) ?up ''library'' ''nginx'' = Inr r2"
    by (simp add: registry_token_request)
  obtain r3 where r3: "Digest_request (registry found) ''tok'' ''library'' ''nginx'' ''latest'' = Inr r3"
    by (simp add: registry_request)
  have e: "EncodeToString ''user:pass'' = ''dXNlcjpwYXNz''" by code_simp
  from C10_credentials[of "registry found" ?u "''library''" "''nginx''" r1 "''tok''" "''latest''" r3] r1 r3
  have a: "ReqHeader r1 = Map.empty" and c: "ReqHeader r3 ''Authorization'' = Some [''Bearer tok'']"
    by simp_all
  from C10_credentials[of "registry found" ?up "''library''" "''nginx''" r2 "''tok''" "''latest''" r3] r2 e
  have b: "ReqHeader r2 = [''Authorization'' \<mapsto> [''Basic dXNlcjpwYXNz'']]"
    by simp
  from r1 a r2 b r3 c show ?thesis by blast
qed

end
